theory Spec2Isabelle
  imports Complex_Main "HOL-Library.Word"
begin

unbundle bit_operations_syntax

section \<open>Conventions of the embedding\<close>

text \<open>
  The embedding follows \<^verbatim>\<open>linux-si470x.c\<close>.

  \<^item> \<^verbatim>\<open>unsigned char\<close> and \<^verbatim>\<open>uint8_t\<close> are \<open>8 word\<close>, \<^verbatim>\<open>uint16_t\<close> is \<open>16 word\<close>.
    C promotes both to \<^verbatim>\<open>int\<close> before any arithmetic, so the expressions of the source are
    computed on \<open>int\<close> after \<open>uint\<close>; all values stay below \<open>2 ^ 18\<close>, far from overflow.
  \<^item> \<^verbatim>\<open>float\<close> and \<^verbatim>\<open>double\<close> are idealised as \<open>real\<close>: every operation is exact, but for
    the product that \<^verbatim>\<open>setTunerFrequency\<close> computes in \<^verbatim>\<open>float\<close>, which is rounded to single
    precision (\<open>fl32\<close>) before it is converted. A conversion to an integer type truncates
    towards zero (\<open>c_trunc\<close>).
  \<^item> Pointers into the program table are indices into the list \<open>programs\<close>. The pointer
    \<^verbatim>\<open>thisProgram\<close>, which the source keeps across calls of \<^verbatim>\<open>realloc\<close>, is a
    \<open>program_pointer\<close>: it dangles once the table has been reallocated.
  \<^item> What the program prints and what it asks of the tuner is a list of \<open>event\<close>s, in order.
    A line is stored without its final newline. A line that formats a \<^verbatim>\<open>float\<close> with
    \<^verbatim>\<open>%.2f\<close> keeps the number as an argument of the event instead of its digits.
  \<^item> A step whose C behaviour is undefined (a write or read outside an array, an access
    through a dangling pointer, a conversion whose value does not fit the integer type) is
    \<open>None\<close>. \<^verbatim>\<open>setTunerFrequency\<close> marks such a conversion by the event
    \<open>Conversion_undefined\<close>, and the iteration of the loop in which it occurs is \<open>None\<close>.
  \<^item> Memory allocation is taken to succeed.
\<close>

type_synonym byte = "8 word"

definition c_trunc :: "real \<Rightarrow> int" where
  "c_trunc x = (if 0 \<le> x then \<lfloor>x\<rfloor> else \<lceil>x\<rceil>)"

definition c_div :: "int \<Rightarrow> int \<Rightarrow> int" where
  "c_div a b = sgn a * sgn b * (\<bar>a\<bar> div \<bar>b\<bar>)"

definition c_mod :: "int \<Rightarrow> int \<Rightarrow> int" where
  "c_mod a b = sgn a * (\<bar>a\<bar> mod \<bar>b\<bar>)"

datatype event =
    Printf string
  | Printf_not_in_range real real real
  | Printf_switching_to string real
  | Printf_frequency_tuned real
  | Printf_is_on string real
  | Perror string
  | Ioctl_S_FREQUENCY int
  | Conversion_undefined real

subsection \<open>Single precision\<close>

text \<open>The number of binary digits of a positive integer.\<close>

function bit_length :: "int \<Rightarrow> nat" where
  "bit_length n = (if n \<le> 0 then 0 else Suc (bit_length (n div 2)))"
  by pat_completeness auto
termination
  by (relation "measure nat") auto

declare bit_length.simps [simp del]

text \<open>Rounding to the nearest integer, a tie going to the even one.\<close>

definition round_even :: "real \<Rightarrow> int" where
  "round_even y =
     (let n = \<lfloor>y\<rfloor>; r = y - real_of_int n
      in if r < 1 / 2 then n else if 1 / 2 < r then n + 1
         else if even n then n else n + 1)"

text \<open>The value of IEEE 754 single precision nearest to a real that is not negative: 24
  binary digits, the smallest quantum \<open>2 ^ -149\<close>, a tie going to the even neighbour. In units
  of \<open>2 ^ -149\<close> the real is \<open>X\<close>; when \<open>X\<close> has more than 24 digits before the point, the
  quantum is that much coarser. The exponent is not bounded from above: a value from
  \<open>2 ^ 128\<close> on stands for an overflow, and no integer type of the source can hold it.\<close>

definition fl32_magnitude :: "real \<Rightarrow> real" where
  "fl32_magnitude x =
     (let X = x * 2 ^ 149;
          s = bit_length \<lfloor>X\<rfloor> - 24
      in real_of_int (round_even (X / 2 ^ s)) * 2 ^ s / 2 ^ 149)"

definition fl32 :: "real \<Rightarrow> real" where
  "fl32 x = (if x < 0 then - fl32_magnitude (- x) else fl32_magnitude x)"

subsection \<open>The conversions of printf\<close>

definition digit_char :: "nat \<Rightarrow> char" where
  "digit_char d = (if d < 10 then char_of (48 + d) else char_of (55 + d))"

fun fmt_base :: "nat \<Rightarrow> nat \<Rightarrow> nat \<Rightarrow> string" where
  "fmt_base b 0 n = []"
| "fmt_base b (Suc fuel) n =
     (if n < b then [digit_char n]
      else fmt_base b fuel (n div b) @ [digit_char (n mod b)])"

text \<open>\<^verbatim>\<open>%d\<close> and \<^verbatim>\<open>%X\<close> of a value below \<open>2 ^ 32\<close>: ten decimal or eight
  hexadecimal digits at most, so the fuel is never used up.\<close>

definition fmt_u :: "nat \<Rightarrow> string" where
  "fmt_u n = fmt_base 10 10 n"

definition fmt_X :: "nat \<Rightarrow> string" where
  "fmt_X n = fmt_base 16 8 n"

definition fmt_d :: "int \<Rightarrow> string" where
  "fmt_d i = (if i < 0 then CHR ''-'' # fmt_u (nat (- i)) else fmt_u (nat i))"

text \<open>\<^verbatim>\<open>%0wd\<close>: zeros between the sign and the digits up to the width \<open>w\<close>.\<close>

definition fmt_0d :: "nat \<Rightarrow> int \<Rightarrow> string" where
  "fmt_0d w i =
     (if i < 0
      then CHR ''-'' # replicate (w - 1 - length (fmt_u (nat (- i)))) CHR ''0'' @ fmt_u (nat (- i))
      else replicate (w - length (fmt_u (nat i))) CHR ''0'' @ fmt_u (nat i))"

definition fmt_02X :: "nat \<Rightarrow> string" where
  "fmt_02X n = replicate (2 - length (fmt_X n)) CHR ''0'' @ fmt_X n"

text \<open>\<^verbatim>\<open>%s\<close> of a char array: the bytes before the first NUL.\<close>

definition c_string :: "byte list \<Rightarrow> string" where
  "c_string bs = map (\<lambda>b. char_of (unat b)) (takeWhile (\<lambda>b. b \<noteq> 0) bs)"

section \<open>Global state\<close>

record ProgramData =
  pd_id :: "16 word"
  pd_freq :: real
  pd_name :: "byte list"
  pd_tp :: byte
  pd_ta :: byte
  pd_type :: int

text \<open>The globals of the source. \<open>programCount\<close> is the length of \<open>programs\<close>.
  \<open>tuner_accepts\<close> is the environment: whether the ioctl \<^verbatim>\<open>VIDIOC_S_FREQUENCY\<close> succeeds
  for a raw value.\<close>

record globals =
  verbose :: int
  frequencyDivider :: int
  minFrequency :: real
  currentFrequency :: real
  maxFrequency :: real
  programs :: "ProgramData list"
  tuner_accepts :: "int \<Rightarrow> bool"

section \<open>Tuner\<close>

text \<open>\<^verbatim>\<open>setTunerFrequency\<close>: the range test is strict on both sides. The divider is converted
  to \<^verbatim>\<open>float\<close> and the product is computed in \<^verbatim>\<open>float\<close>, so it is rounded to single
  precision; the assignment to the unsigned 32-bit register then truncates it, which C
  defines only when the truncated value fits the register.\<close>

definition setTunerFrequency :: "globals \<Rightarrow> real \<Rightarrow> event list" where
  "setTunerFrequency g newFrequency =
     (if newFrequency < maxFrequency g \<and> newFrequency > minFrequency g then
        (let product = fl32 (newFrequency * fl32 (real_of_int (frequencyDivider g)));
             frequency = c_trunc product
         in if 0 \<le> frequency \<and> frequency < 2 ^ 32 then
              (if tuner_accepts g frequency then [Ioctl_S_FREQUENCY frequency]
               else [Ioctl_S_FREQUENCY frequency, Perror ''ioctl VIDIOC_S_FREQUENCY''])
            else [Conversion_undefined product])
      else [Printf_not_in_range newFrequency (minFrequency g) (maxFrequency g)])"

section \<open>Program table\<close>

definition zero_program :: ProgramData where
  "zero_program = \<lparr>pd_id = 0, pd_freq = 0, pd_name = replicate 9 0, pd_tp = 0, pd_ta = 0,
     pd_type = 0\<rparr>"

text \<open>The search loop of \<^verbatim>\<open>getProgram\<close>, from index \<open>i\<close> on.\<close>

fun getProgram_search :: "ProgramData list \<Rightarrow> 16 word \<Rightarrow> nat \<Rightarrow> nat option" where
  "getProgram_search [] ident i = None"
| "getProgram_search (pd # rest) ident i =
     (if pd_id pd = ident then Some i else getProgram_search rest ident (Suc i))"

text \<open>\<^verbatim>\<open>getProgram\<close> returns the index of the record and the table after the call.\<close>

definition getProgram :: "ProgramData list \<Rightarrow> 16 word \<Rightarrow> nat \<times> ProgramData list" where
  "getProgram ps ident =
     (case getProgram_search ps ident 0 of
        Some i \<Rightarrow> (i, ps)
      | None \<Rightarrow> (length ps, ps @ [zero_program\<lparr>pd_id := ident\<rparr>]))"

definition EONAF_handleFrequencyPair ::
    "globals \<Rightarrow> nat \<Rightarrow> nat \<Rightarrow> real \<Rightarrow> real \<Rightarrow> globals \<times> bool" where
  "EONAF_handleFrequencyPair g this other f1 f2 =
     (let tf = pd_freq (programs g ! this) in
      if tf \<ge> minFrequency g \<and> f1 \<ge> tf - 0.04 \<and> f1 \<le> tf + 0.04
      then (g\<lparr>programs := (programs g)[other := (programs g ! other)\<lparr>pd_freq := f2\<rparr>]\<rparr>, True)
      else (g, False))"

text \<open>The inner loop of \<^verbatim>\<open>nextProgram\<close>: from \<open>next\<close>, cyclically, the first index other than
  \<open>i\<close> whose frequency is at least the minimum. Both indices are below the length at every
  call of the source; the first test only makes that explicit.\<close>

function nextProgram_scan :: "ProgramData list \<Rightarrow> real \<Rightarrow> nat \<Rightarrow> nat \<Rightarrow> nat option" where
  "nextProgram_scan ps minF i n =
     (if \<not> (i < length ps \<and> n < length ps) then None
      else if n = i then None
      else if pd_freq (ps ! n) \<ge> minF then Some n
      else nextProgram_scan ps minF i (if n = length ps - 1 then 0 else n + 1))"
  by pat_completeness auto
termination
  by (relation "measure (\<lambda>(ps, minF, i, n). if n \<le> i then i - n else i + length ps - n)")
     (auto split: if_splits)

declare nextProgram_scan.simps [simp del]

text \<open>The outer loop of \<^verbatim>\<open>nextProgram\<close> over the indices still to visit.\<close>

fun nextProgram_loop :: "globals \<Rightarrow> nat list \<Rightarrow> globals \<times> event list" where
  "nextProgram_loop g [] = (g, [])"
| "nextProgram_loop g (i # is) =
     (let ps = programs g in
      if currentFrequency g \<ge> pd_freq (ps ! i) - 0.09
         \<and> currentFrequency g \<le> pd_freq (ps ! i) + 0.09
      then
        (case nextProgram_scan ps (minFrequency g) i (if i = length ps - 1 then 0 else i + 1) of
           Some n \<Rightarrow>
             (let freq = pd_freq (ps ! n) in
              (g\<lparr>currentFrequency := freq\<rparr>,
               (if pd_name (ps ! n) ! 0 \<noteq> 0
                then [Printf_switching_to (c_string (pd_name (ps ! n))) freq] else [])
               @ setTunerFrequency g freq))
         | None \<Rightarrow> (g, [Printf ''No other stations known'']))
      else nextProgram_loop g is)"

definition nextProgram :: "globals \<Rightarrow> globals \<times> event list" where
  "nextProgram g =
     (if length (programs g) \<le> 1 then (g, [])
      else nextProgram_loop g [0 ..< length (programs g)])"

section \<open>The RDS decoder\<close>

definition programTypes :: "string list" where
  "programTypes =
     [''News'', ''Current affairs'', ''Information'', ''Sport'',
      ''Education'', ''Drama'', ''Culture'', ''Science'', ''Varied'', ''Pop music'',
      ''Rock music'', ''Easy listening'', ''Light classical'', ''Serious classical'',
      ''Other music'', ''Weather'', ''Finance'', ''Children's programmes'',
      ''Social affairs'', ''Religion'' @ ''Phone-in'', ''Travel'', ''Leisure'', ''Jazz music'',
      ''Country music'', ''National music'', ''Oldies music'', ''Folk music'',
      ''Documentary'', ''Alarm test'', ''Alarm'']"

text \<open>A read of \<^verbatim>\<open>programTypes[i]\<close>; the array has 30 slots.\<close>

definition programTypes_at :: "int \<Rightarrow> string option" where
  "programTypes_at i = (if 0 \<le> i \<and> i < 30 then Some (programTypes ! nat i) else None)"

text \<open>The pointer \<^verbatim>\<open>thisProgram\<close>: null, pointing at a record of the table, or dangling,
  because \<^verbatim>\<open>getProgram\<close> has called \<^verbatim>\<open>realloc\<close> on the table since the pointer was
  taken.\<close>

datatype program_pointer = Null | Record_at nat | Dangling

record rds_data =
  lsb :: byte
  msb :: byte
  block :: byte

text \<open>The locals of \<^verbatim>\<open>decodeRds\<close> that live across iterations, with the globals.
  \<open>groupType\<close> is the value of the enum, \<open>TYPE_0A = 0\<close> to \<open>TYPE_15B = 31\<close>.
  \<open>lastProgramName\<close> is the string \<^verbatim>\<open>strdup\<close> copied: the bytes before the first NUL.
  The \<^verbatim>\<open>char\<close> flags only ever hold 0 or 1 and are booleans.\<close>

record decoder =
  glob :: globals
  rdsData :: rds_data
  blockCount :: int
  errorCount :: int
  groupType :: int
  groupData :: "byte list"
  lastGroupData :: "byte list"
  thisProgram :: program_pointer
  programName :: "byte list"
  lastProgramName :: "byte list option"
  stereoKnown :: bool
  isStereo :: bool
  ta :: bool
  freqCounter :: int
  radioText :: "byte list"
  radioTextabFlag :: bool

definition set_program :: "globals \<Rightarrow> nat \<Rightarrow> (ProgramData \<Rightarrow> ProgramData) \<Rightarrow> globals" where
  "set_program g i f = g\<lparr>programs := (programs g)[i := f (programs g ! i)]\<rparr>"

subsection \<open>Type 0A\<close>

text \<open>The four parts of the branch, in the order of the source: the traffic announcement,
  the program-service name, the stereo flag, the list of alternate frequencies.\<close>

definition dispatch_0A_traffic :: "decoder \<Rightarrow> decoder \<times> event list" where
  "dispatch_0A_traffic d =
     (let g = (\<lambda>i. uint (groupData d ! i));
          TP = (g 2 AND 0x04 = 0x04);
          isTrafficAnnouncement = (g 3 AND 0x10 = 0x10)
      in if TP \<and> isTrafficAnnouncement \<noteq> ta d
         then (d\<lparr>ta := isTrafficAnnouncement\<rparr>,
               [Printf (''Traffic announcement '' @
                        (if isTrafficAnnouncement then ''on'' else ''off''))])
         else (d, []))"

definition dispatch_0A_name :: "decoder \<Rightarrow> decoder \<times> event list" where
  "dispatch_0A_name d =
     (let g = (\<lambda>i. uint (groupData d ! i));
          index = nat (push_bit 1 (g 3 AND 0x03));
          pn = (programName d)[index := groupData d ! 6, index + 1 := groupData d ! 7];
          d = d\<lparr>programName := pn\<rparr>
      in if takeWhile (\<lambda>b. b \<noteq> 0) pn \<noteq> [] \<and> index = 6 then
           (if lastProgramName d = None
               \<or> Some (takeWhile (\<lambda>b. b \<noteq> 0) pn) \<noteq> lastProgramName d
            then (d\<lparr>lastProgramName := Some (takeWhile (\<lambda>b. b \<noteq> 0) pn),
                    programName := pn[0 := 0]\<rparr>,
                  [Printf (''Program: '' @ c_string pn)])
            else (d\<lparr>programName := pn[0 := 0]\<rparr>, []))
         else (d, []))"

definition dispatch_0A_stereo :: "decoder \<Rightarrow> decoder \<times> event list" where
  "dispatch_0A_stereo d =
     (let g = (\<lambda>i. uint (groupData d ! i));
          stereoBit = (g 3 AND 0x04 = 0x04);
          line = Printf (''Program is '' @ (if stereoBit then ''stereo'' else ''mono''))
      in if g 3 AND 0x03 = 3 then
           (let (d, e) = (if \<not> stereoKnown d
                          then (d\<lparr>isStereo := stereoBit, stereoKnown := True\<rparr>, [line])
                          else (d, []))
            in if isStereo d \<noteq> stereoBit then (d\<lparr>isStereo := stereoBit\<rparr>, e @ [line])
               else (d, e))
         else (d, []))"

definition dispatch_0A_af :: "decoder \<Rightarrow> decoder" where
  "dispatch_0A_af d =
     (let g = (\<lambda>i. uint (groupData d ! i))
      in if g 4 \<ge> 224 \<and> g 4 \<le> 249 then
           (let fc = g 4 - 224 in
            if fc \<noteq> 0 \<and> g 5 \<ge> 1 \<and> g 5 \<le> 204 then d\<lparr>freqCounter := fc - 1\<rparr>
            else d\<lparr>freqCounter := fc\<rparr>)
         else if freqCounter d > 0 then d\<lparr>freqCounter := freqCounter d - 2\<rparr>
         else d)"

definition dispatch_0A :: "decoder \<Rightarrow> decoder \<times> event list" where
  "dispatch_0A d =
     (let (d, e1) = dispatch_0A_traffic d;
          (d, e2) = dispatch_0A_name d;
          (d, e3) = dispatch_0A_stereo d
      in (dispatch_0A_af d, e1 @ e2 @ e3))"

subsection \<open>Type 2A\<close>

text \<open>The trimming loop, \<open>i\<close> running down from 63; the argument is \<open>i + 1\<close>.\<close>

fun radioText_trim :: "byte list \<Rightarrow> nat \<Rightarrow> byte list" where
  "radioText_trim rt 0 = rt"
| "radioText_trim rt (Suc i) =
     (if rt ! i = 0 then radioText_trim rt i
      else if rt ! i = 0x20 \<or> rt ! i = 0x0D then radioText_trim (rt[i := 0]) i
      else rt)"

definition dispatch_2A :: "decoder \<Rightarrow> decoder \<times> event list" where
  "dispatch_2A d =
     (let g = (\<lambda>i. uint (groupData d ! i));
          index = nat (g 3 AND 0x0F);
          newabFlag = (g 3 AND 0x10 = 0x10);
          (rt, fl, e) =
            (if newabFlag \<noteq> radioTextabFlag d then
               (let trimmed = radioText_trim (radioText d) 64 in
                (replicate 64 0x20 @ drop 64 trimmed, newabFlag,
                 if takeWhile (\<lambda>b. b \<noteq> 0) trimmed \<noteq> []
                 then [Printf (''Text: '' @ c_string trimmed)] else []))
             else (radioText d, radioTextabFlag d, []));
          rt' = rt[4 * index := groupData d ! 4, 4 * index + 1 := groupData d ! 5,
                   4 * index + 2 := groupData d ! 6, 4 * index + 3 := groupData d ! 7]
      in (d\<lparr>radioText := rt', radioTextabFlag := fl\<rparr>, e))"

subsection \<open>Type 4A\<close>

definition monthDays :: "int list" where
  "monthDays = [31, 28, 31, 30, 31, 30, 31, 31, 30, 31, 30, 31]"

definition monthDays_at :: "int \<Rightarrow> int option" where
  "monthDays_at i = (if 0 \<le> i \<and> i < 12 then Some (monthDays ! nat i) else None)"

text \<open>The Modified Julian Date to year, month and day, before \<open>K\<close> is applied.\<close>

definition mjd_year :: "int \<Rightarrow> int" where
  "mjd_year julianDate = c_trunc ((real_of_int julianDate - 15078.2) / 365.25)"

definition mjd_month :: "int \<Rightarrow> int" where
  "mjd_month julianDate =
     c_trunc (((real_of_int julianDate - 14956.1)
               - real_of_int (c_trunc (real_of_int (mjd_year julianDate) * 365.25))) / 30.6001)"

definition mjd_day :: "int \<Rightarrow> int" where
  "mjd_day julianDate =
     julianDate - 14956 - c_trunc (real_of_int (mjd_year julianDate) * 365.25)
       - c_trunc (real_of_int (mjd_month julianDate) * 30.6001)"

definition mjd_K :: "int \<Rightarrow> int" where
  "mjd_K julianDate = (if mjd_month julianDate = 14 \<or> mjd_month julianDate = 15 then 1 else 0)"

text \<open>Year, month and day as printed when the local hour stays within the day.\<close>

definition mjd_to_date :: "int \<Rightarrow> int \<times> int \<times> int" where
  "mjd_to_date julianDate =
     (mjd_year julianDate + mjd_K julianDate + 1900,
      mjd_month julianDate - 1 - mjd_K julianDate * 12,
      mjd_day julianDate)"

function minute_up :: "int \<Rightarrow> int \<Rightarrow> int \<times> int" where
  "minute_up localMinute localHour =
     (if localMinute < 0 then minute_up (localMinute + 60) (localHour - 1)
      else (localMinute, localHour))"
  by pat_completeness auto
termination
  by (relation "measure (\<lambda>(m, h). nat (- m))") auto

function minute_down :: "int \<Rightarrow> int \<Rightarrow> int \<times> int" where
  "minute_down localMinute localHour =
     (if localMinute \<ge> 60 then minute_down (localMinute - 60) (localHour + 1)
      else (localMinute, localHour))"
  by pat_completeness auto
termination
  by (relation "measure (\<lambda>(m, h). nat m)") auto

declare minute_up.simps [simp del] minute_down.simps [simp del]

text \<open>The carry of a negative local hour into the date.\<close>

definition hour_borrow :: "int \<times> int \<times> int \<times> int \<Rightarrow> (int \<times> int \<times> int \<times> int) option" where
  "hour_borrow = (\<lambda>(year, month, day, localHour).
     if localHour < 0 then
       (let localHour = localHour + 24; day = day - 1 in
        if day < 1 then
          (let month = month - 1;
               (month, year) = (if month < 1 then (12, year - 1) else (month, year))
           in case monthDays_at (month - 1) of
                None \<Rightarrow> None
              | Some md \<Rightarrow>
                  Some (year, month, if c_mod year 4 = 0 \<and> month = 2 then 29 else md, localHour))
        else Some (year, month, day, localHour))
     else Some (year, month, day, localHour))"

text \<open>The carry of a local hour of 24 or more into the date.\<close>

definition hour_carry :: "int \<times> int \<times> int \<times> int \<Rightarrow> (int \<times> int \<times> int \<times> int) option" where
  "hour_carry = (\<lambda>(year, month, day, localHour).
     if localHour \<ge> 24 then
       (let localHour = localHour - 24; day = day + 1 in
        case (if c_mod year 4 = 0 \<and> month = 2 then Some 29 else monthDays_at (month - 1)) of
          None \<Rightarrow> None
        | Some maxDay \<Rightarrow>
            if day > maxDay then
              (let month = month + 1 in
               if month > 12 then Some (year + 1, 1, day, localHour)
               else Some (year, month, day, localHour))
            else Some (year, month, day, localHour))
     else Some (year, month, day, localHour))"

definition dispatch_4A :: "byte list \<Rightarrow> event list option" where
  "dispatch_4A gd =
     (let g = (\<lambda>i. uint (gd ! i));
          julianDate = push_bit 15 (g 3 AND 0x03) OR push_bit 7 (g 4) OR drop_bit 1 (g 5);
          (year, month, day) = mjd_to_date julianDate;
          utcHour = push_bit 4 (g 5 AND 0x01) OR drop_bit 4 (g 6 AND 0xF0);
          utcMinute = push_bit 2 (g 6 AND 0x0F) OR drop_bit 6 (g 7 AND 0xC0);
          utcOffset = (if g 7 AND 0x20 \<noteq> 0 then - (g 7 AND 0x1F) else g 7 AND 0x1F);
          (localMinute, localHour) = minute_up (utcMinute + utcOffset * 30) utcHour;
          (localMinute, localHour) = minute_down localMinute localHour
      in case hour_borrow (year, month, day, localHour) of
           None \<Rightarrow> None
         | Some r \<Rightarrow>
             (case hour_carry r of
                None \<Rightarrow> None
              | Some (year, month, day, localHour) \<Rightarrow>
                  Some [Printf (''Date: '' @ fmt_0d 4 year @ ''-'' @ fmt_0d 2 month @ ''-''
                          @ fmt_0d 2 day @ '' '' @ fmt_0d 2 localHour @ '':''
                          @ fmt_0d 2 localMinute @ '' (''
                          @ (if utcOffset > 0 then ''+'' else ''-'')
                          @ fmt_0d 2 (c_div (utcOffset * 30) 60) @ '':''
                          @ fmt_0d 2 (c_mod (utcOffset * 30) 60) @ '')'')]))"

subsection \<open>Type 8A\<close>

definition durStr :: "int \<Rightarrow> string" where
  "durStr duration =
     (if duration = 0 then ''unknown'' else if duration = 1 then ''15 minutes''
      else if duration = 2 then ''30 minutes'' else if duration = 3 then ''1 hour''
      else if duration = 4 then ''2 hours'' else if duration = 5 then ''3 hour''
      else if duration = 6 then ''4 hour'' else ''rest of the day'')"

definition dispatch_8A :: "decoder \<Rightarrow> event list" where
  "dispatch_8A d =
     (let g = (\<lambda>i. uint (groupData d ! i));
          tmctype = drop_bit 3 (g 3 AND 0x18);
          CI = g 3 AND 0x07;
          extent = drop_bit 3 (g 4 AND 0x38);
          evt = push_bit 8 (g 4 AND 0x07) OR g 5;
          location = push_bit 8 (g 6) OR g 7
      in if tmctype = 1 then
           [Printf (''TMC(single): evt='' @ fmt_X (nat evt) @ '', loc='' @ fmt_X (nat location)
                    @ '', extent='' @ fmt_X (nat extent) @ '', dur='' @ durStr CI)]
         else if verbose (glob d) \<noteq> 0 then
           [Printf (''TMC: Type='' @ fmt_X (nat tmctype) @ '', CI='' @ fmt_X (nat CI)
                    @ '', event='' @ fmt_X (nat evt) @ '', loc='' @ fmt_X (nat location))]
         else [])"

subsection \<open>The default branch\<close>

definition dispatch_default :: "decoder \<Rightarrow> event list" where
  "dispatch_default d =
     (if verbose (glob d) > 1 then
        (let x = (\<lambda>i. fmt_02X (unat (groupData d ! i))) in
         [Printf (''Group('' @ fmt_X (nat (groupType d)) @ ''): ''
                  @ x 0 @ x 1 @ ''-'' @ x 2 @ x 3 @ ''-'' @ x 4 @ x 5 @ ''-'' @ x 6 @ x 7)])
      else [])"

subsection \<open>Type 14A\<close>

text \<open>\<^verbatim>\<open>getProgram\<close> calls \<^verbatim>\<open>realloc\<close> exactly when it finds no record with the PI code.
  A pointer taken before that call dangles afterwards.\<close>

definition getProgram_reallocates :: "ProgramData list \<Rightarrow> 16 word \<Rightarrow> bool" where
  "getProgram_reallocates ps ident = (getProgram_search ps ident 0 = None)"

definition after_getProgram :: "bool \<Rightarrow> program_pointer \<Rightarrow> program_pointer" where
  "after_getProgram reallocated p =
     (case p of Record_at i \<Rightarrow> (if reallocated then Dangling else Record_at i) | q \<Rightarrow> q)"

text \<open>In variant 5 the source reads the frequency of \<^verbatim>\<open>thisProgram\<close> after the call of
  \<^verbatim>\<open>getProgram\<close>; through a dangling pointer that read is undefined. The branch has no
  \<^verbatim>\<open>break\<close> of its own and runs into the default branch.\<close>

definition AF_MHz :: "int \<Rightarrow> real" where
  "AF_MHz b = real_of_int (100 * (b - 1) + 87600) / 1000.0"

definition dispatch_14A :: "decoder \<Rightarrow> (decoder \<times> event list) option" where
  "dispatch_14A d =
     (let g = (\<lambda>i. uint (groupData d ! i));
          TPON = (g 3 AND 0x10 = 0x10);
          variantType = g 3 AND 0x0F;
          info = push_bit 8 (g 4) OR g 5;
          PION = push_bit 8 (g 6) OR g 7;
          this_ptr = after_getProgram
                       (getProgram_reallocates (programs (glob d)) (word_of_int PION))
                       (thisProgram d);
          (otherProgram, ps) = getProgram (programs (glob d)) (word_of_int PION);
          gl = (glob d)\<lparr>programs := ps\<rparr>;
          other_name = pd_name (ps ! otherProgram);
          r =
            (if 0 \<le> variantType \<and> variantType \<le> 3 then
               Some (set_program gl otherProgram
                  (\<lambda>pd. pd\<lparr>pd_name := (pd_name pd)[nat (2 * variantType) := groupData d ! 4,
                                                   nat (2 * variantType + 1) := groupData d ! 5]\<rparr>),
                [])
             else if variantType = 5 then
               (case this_ptr of
                  Null \<Rightarrow> Some (gl, [])
                | Dangling \<Rightarrow> None
                | Record_at this \<Rightarrow>
                    (let (gl2, hit) = EONAF_handleFrequencyPair gl this otherProgram
                                        (AF_MHz (g 4)) (AF_MHz (g 5))
                     in Some (gl2,
                         if hit \<and> verbose gl2 \<noteq> 0 \<and> pd_name (programs gl2 ! otherProgram) ! 0 \<noteq> 0
                         then [Printf_is_on (c_string (pd_name (programs gl2 ! otherProgram)))
                                 (pd_freq (programs gl2 ! otherProgram))]
                         else [])))
             else if variantType = 0xD then
               (let TAON = g 5 AND 0x01 in
                if TPON \<and> TAON \<noteq> 0 \<and> TAON \<noteq> uint (pd_ta (ps ! otherProgram)) then
                  Some (set_program gl otherProgram (\<lambda>pd. pd\<lparr>pd_ta := word_of_int TAON\<rparr>),
                   [Printf (''Traffic Announcement on ''
                            @ (if other_name ! 0 \<noteq> 0 then c_string other_name
                               else fmt_X (nat PION))
                            @ '' is '' @ (if TAON \<noteq> 0 then ''on'' else ''off''))])
                else Some (gl, []))
             else
               Some (gl, if verbose gl \<noteq> 0 then
                      [Printf (''EON: TPON='' @ fmt_d (if TPON then 1 else 0)
                               @ '', v='' @ fmt_X (nat variantType)
                               @ '', info='' @ fmt_X (nat info)
                               @ '', PION='' @ fmt_X (nat PION))]
                    else []))
      in case r of
           None \<Rightarrow> None
         | Some (gl', e) \<Rightarrow>
             (let d' = d\<lparr>glob := gl', thisProgram := this_ptr\<rparr>
              in Some (d', e @ dispatch_default d')))"

subsection \<open>One block\<close>

text \<open>The switch on \<open>groupType\<close>.\<close>

definition dispatch :: "decoder \<Rightarrow> (decoder \<times> event list) option" where
  "dispatch d =
     (if groupType d = 0 then Some (dispatch_0A d)
      else if groupType d = 4 then Some (dispatch_2A d)
      else if groupType d = 8 then
        (case dispatch_4A (groupData d) of None \<Rightarrow> None | Some e \<Rightarrow> Some (d, e))
      else if groupType d = 16 then Some (d, dispatch_8A d)
      else if groupType d = 28 then dispatch_14A d
      else Some (d, dispatch_default d))"

text \<open>Block 0: the PI code names the current program, whose frequency is recorded.
  \<^verbatim>\<open>thisProgram\<close> is the pointer that \<^verbatim>\<open>getProgram\<close> returns, into the table as it is
  after the call.\<close>

definition block0 :: "decoder \<Rightarrow> decoder" where
  "block0 d =
     (let rd = rdsData d;
          (i, ps) = getProgram (programs (glob d))
                      (word_of_int (push_bit 8 (uint (msb rd)) OR uint (lsb rd)));
          gl = (glob d)\<lparr>programs := ps\<rparr>
      in d\<lparr>glob := set_program gl i (\<lambda>pd. pd\<lparr>pd_freq := currentFrequency gl\<rparr>),
           thisProgram := Record_at i\<rparr>)"

text \<open>Block 1: the program type and the group type. With a program type other than 0 the
  source reads the type of \<^verbatim>\<open>thisProgram\<close>, which is undefined through a dangling
  pointer.\<close>

definition block1 :: "decoder \<Rightarrow> (decoder \<times> event list) option" where
  "block1 d =
     (let rd = rdsData d;
          ptyCode = (push_bit 3 (uint (msb rd)) AND 0x18) OR (drop_bit 5 (uint (lsb rd)) AND 0x07);
          gt = drop_bit 3 (uint (msb rd))
      in case thisProgram d of
           Null \<Rightarrow> Some (d\<lparr>groupType := gt\<rparr>, [])
         | Dangling \<Rightarrow> (if ptyCode \<noteq> 0 then None else Some (d\<lparr>groupType := gt\<rparr>, []))
         | Record_at this \<Rightarrow>
             if ptyCode \<noteq> 0 \<and> pd_type (programs (glob d) ! this) \<noteq> ptyCode then
               (let d' = d\<lparr>glob := set_program (glob d) this (\<lambda>pd. pd\<lparr>pd_type := ptyCode\<rparr>),
                          groupType := gt\<rparr>
                in if ptyCode > 0 then
                     (case programTypes_at (ptyCode - 1) of
                        None \<Rightarrow> None
                      | Some s \<Rightarrow> Some (d', [Printf (''Program type: '' @ s)]))
                   else Some (d', []))
             else Some (d\<lparr>groupType := gt\<rparr>, []))"

text \<open>The body of the loop after the reads: lines 332 to 597 of the source, on the record last
  read. A block number above 3 writes behind \<open>groupData\<close>.\<close>

definition process_block :: "decoder \<Rightarrow> (decoder \<times> event list) option" where
  "process_block d0 =
     (let rd = rdsData d0;
          blockNumber = uint (block rd AND 0x07);
          error = (block rd AND 0x80 = 0x80);
          d = d0\<lparr>blockCount := blockCount d0 + 1\<rparr>
      in if error then
           (let d = d\<lparr>errorCount := errorCount d + 1\<rparr> in
            Some (d, if verbose (glob d) \<noteq> 0
                     then [Printf (fmt_d (errorCount d) @ '' errors in '' @ fmt_d (blockCount d)
                                   @ '' blocks so far'')]
                     else []))
         else
           (let d = (if blockNumber = 0 then block0 d else d) in
            case (if blockNumber = 1 then block1 d else Some (d, [])) of
              None \<Rightarrow> None
            | Some (d, e1) \<Rightarrow>
                if blockNumber > 3 then None
                else
                  (let d = d\<lparr>groupData := (groupData d)[nat (2 * blockNumber) := msb rd,
                                                          nat (2 * blockNumber + 1) := lsb rd]\<rparr>
                   in if blockNumber = 3 then
                        (if groupData d = lastGroupData d then Some (d, e1)
                         else
                           (case dispatch d of
                              None \<Rightarrow> None
                            | Some (d, e2) \<Rightarrow>
                                Some (d\<lparr>lastGroupData := groupData d,
                                        groupData := replicate 8 0\<rparr>, e1 @ e2)))
                      else Some (d, e1))))"

subsection \<open>The keyboard\<close>

definition handle_key :: "decoder \<Rightarrow> byte \<Rightarrow> decoder \<times> event list" where
  "handle_key d c =
     (let gl = glob d in
      if c = 0x6E then
        (let (gl', e) = nextProgram gl in (d\<lparr>glob := gl'\<rparr>, e))
      else if c = 0x2B then
        (let f = currentFrequency gl + 0.05;
             f = (if f > maxFrequency gl then minFrequency gl else f);
             gl' = gl\<lparr>currentFrequency := f\<rparr>
         in (d\<lparr>glob := gl'\<rparr>, setTunerFrequency gl' f @ [Printf_frequency_tuned f]))
      else if c = 0x2D then
        (let f = currentFrequency gl - 0.05;
             f = (if f < minFrequency gl then maxFrequency gl else f);
             gl' = gl\<lparr>currentFrequency := f\<rparr>
         in (d\<lparr>glob := gl'\<rparr>, setTunerFrequency gl' f @ [Printf_frequency_tuned f]))
      else (d, [Printf (''Keyboard: '' @ fmt_u (unat c) @ '' ('' @ fmt_X (unat c) @ '')'')]))"

subsection \<open>One iteration of the loop\<close>

text \<open>What \<^verbatim>\<open>poll\<close> and the reads deliver in one iteration. A read of the radio gives
  0 bytes, a full record, or another count with the bytes it did read; a read of the keyboard gives a character, 0 bytes,
  or an error.\<close>

datatype radio_read = Radio_EOF | Radio_short int "byte list" | Radio_block rds_data
datatype stdin_read = Stdin_key byte | Stdin_EOF | Stdin_error
datatype poll_result = Poll_timeout | Poll_error | Poll_ready "radio_read option" "stdin_read option"

text \<open>The \<^verbatim>\<open>for\<close> loop over the two descriptors. Its \<^verbatim>\<open>continue\<close> and \<^verbatim>\<open>break\<close> leave
  the \<^verbatim>\<open>for\<close> loop only, so the block code runs afterwards in every case.\<close>

text \<open>A short read overwrites the first bytes of the record: \<open>lsb\<close>, then \<open>msb\<close>.\<close>

definition partial_read :: "rds_data \<Rightarrow> byte list \<Rightarrow> rds_data" where
  "partial_read rd bs =
     (case bs of
        [] \<Rightarrow> rd
      | [b0] \<Rightarrow> rd\<lparr>lsb := b0\<rparr>
      | b0 # b1 # _ \<Rightarrow> rd\<lparr>lsb := b0, msb := b1\<rparr>)"

definition read_stdin :: "decoder \<Rightarrow> stdin_read option \<Rightarrow> decoder \<times> event list" where
  "read_stdin d s = (case s of Some (Stdin_key c) \<Rightarrow> handle_key d c | _ \<Rightarrow> (d, []))"

definition read_fds :: "decoder \<Rightarrow> radio_read option \<Rightarrow> stdin_read option \<Rightarrow> decoder \<times> event list" where
  "read_fds d r s =
     (case r of
        None \<Rightarrow> read_stdin d s
      | Some Radio_EOF \<Rightarrow> (d, [])
      | Some (Radio_short n bs) \<Rightarrow>
          (let (d', e) = read_stdin (d\<lparr>rdsData := partial_read (rdsData d) bs\<rparr>) s
           in (d', Printf (''ERR: Incomplete RDS block, count was '' @ fmt_d n) # e))
      | Some (Radio_block rd) \<Rightarrow> read_stdin (d\<lparr>rdsData := rd\<rparr>) s)"

text \<open>The event that marks an undefined conversion.\<close>

definition undefined_event :: "event \<Rightarrow> bool" where
  "undefined_event e = (case e of Conversion_undefined x \<Rightarrow> True | _ \<Rightarrow> False)"

text \<open>One iteration: the decoder afterwards, what was emitted, and whether the loop goes on.
  An iteration whose keyboard handling ran into an undefined conversion is \<open>None\<close>.\<close>

definition iteration :: "decoder \<Rightarrow> poll_result \<Rightarrow> (decoder \<times> event list \<times> bool) option" where
  "iteration d p =
     (case p of
        Poll_timeout \<Rightarrow> Some (d, if verbose (glob d) \<noteq> 0 then [Printf ''No RDS data''] else [], True)
      | Poll_error \<Rightarrow> Some (d, [Perror ''poll''], False)
      | Poll_ready r s \<Rightarrow>
          (let (d1, e1) = read_fds d r s in
           if list_ex undefined_event e1 then None
           else
             (case process_block d1 of
                None \<Rightarrow> None
              | Some (d2, e2) \<Rightarrow> Some (d2, e1 @ e2, True))))"

text \<open>A run over the results of successive polls.\<close>

fun run :: "decoder \<Rightarrow> poll_result list \<Rightarrow> (decoder \<times> event list) option" where
  "run d [] = Some (d, [])"
| "run d (p # ps) =
     (case iteration d p of
        None \<Rightarrow> None
      | Some (d', e, go_on) \<Rightarrow>
          if go_on then (case run d' ps of None \<Rightarrow> None | Some (d'', e') \<Rightarrow> Some (d'', e @ e'))
          else Some (d', e))"

text \<open>The locals as \<^verbatim>\<open>decodeRds\<close> initialises them. \<open>rdsData\<close>, \<open>groupType\<close>, \<open>groupData\<close>,
  \<open>lastGroupData\<close> and \<open>isStereo\<close> are not initialised by the source and are arguments.\<close>

definition decoder_init ::
    "globals \<Rightarrow> rds_data \<Rightarrow> int \<Rightarrow> byte list \<Rightarrow> byte list \<Rightarrow> bool \<Rightarrow> decoder" where
  "decoder_init gl rd gt gd lgd st =
     \<lparr>glob = gl, rdsData = rd, blockCount = 0, errorCount = 0, groupType = gt,
      groupData = gd, lastGroupData = lgd, thisProgram = Null,
      programName = replicate 9 0, lastProgramName = None,
      stereoKnown = False, isStereo = st, ta = False, freqCounter = 0,
      radioText = replicate 64 0x20 @ [0], radioTextabFlag = False\<rparr>"

section \<open>The calendar, for comparison\<close>

text \<open>The proleptic Gregorian calendar, written independently of the source: leap years,
  the lengths of the months, and the Modified Julian Date of a date counted from the days
  before its year and before its month. Day 0 of the count is 1858-11-17.\<close>

definition leap_year :: "int \<Rightarrow> bool" where
  "leap_year y =
     (if y mod 400 = 0 then True else if y mod 100 = 0 then False else y mod 4 = 0)"

definition days_in_month :: "int \<Rightarrow> int \<Rightarrow> int" where
  "days_in_month y m =
     (if m = 2 then (if leap_year y then 29 else 28)
      else if m = 4 \<or> m = 6 \<or> m = 9 \<or> m = 11 then 30 else 31)"

definition valid_date :: "int \<Rightarrow> int \<Rightarrow> int \<Rightarrow> bool" where
  "valid_date y m d = (1 \<le> m \<and> m \<le> 12 \<and> 1 \<le> d \<and> d \<le> days_in_month y m)"

definition days_before_year :: "int \<Rightarrow> int" where
  "days_before_year y = 365 * (y - 1) + (y - 1) div 4 - (y - 1) div 100 + (y - 1) div 400"

definition days_before_month :: "int \<Rightarrow> int \<Rightarrow> int" where
  "days_before_month y m = sum_list (map (days_in_month y) [1 .. m - 1])"

definition date_to_mjd :: "int \<Rightarrow> int \<Rightarrow> int \<Rightarrow> int" where
  "date_to_mjd y m d = days_before_year y + days_before_month y m + d - 678576"

section \<open>The resampling controller\<close>

text \<open>The variables of the controller. \<open>offset_differential_index\<close> only counts up.\<close>

record audio =
  resample_mean :: real
  static_resample_factor :: real
  offset_array :: "real list"
  window_array :: "real list"
  offset_differential_index :: nat
  offset_integral :: real
  target_delay :: int
  max_diff :: int

definition catch_factor :: int where "catch_factor = 100000"
definition catch_factor2 :: int where "catch_factor2 = 10000"
definition pclamp :: real where "pclamp = 15.0"
definition controlquant :: real where "controlquant = 10000.0"
definition smooth_size :: nat where "smooth_size = 512"
definition MIN_RESAMPLE_FACTOR :: real where "MIN_RESAMPLE_FACTOR = 0.25"
definition MAX_RESAMPLE_FACTOR :: real where "MAX_RESAMPLE_FACTOR = 4.0"

definition hann :: "real \<Rightarrow> real" where
  "hann x = 0.5 * (1.0 - cos (2 * pi * x))"

text \<open>The two arrays as \<^verbatim>\<open>setupSmoothing\<close> fills them.\<close>

definition setupSmoothing :: "real list \<times> real list" where
  "setupSmoothing =
     (replicate smooth_size 0.0,
      map (\<lambda>i. hann (real i / (real smooth_size - 1.0))) [0 ..< smooth_size])"

text \<open>The restart of the control cycle after a skip or a rewind.\<close>

definition restart_cycle :: "audio \<Rightarrow> audio" where
  "restart_cycle a =
     a\<lparr>offset_integral := - (resample_mean a - static_resample_factor a)
                             * real_of_int catch_factor * real_of_int catch_factor2,
       offset_array := replicate smooth_size 0.0\<rparr>"

text \<open>The controller of \<^verbatim>\<open>process\<close>, lines 898 to 994: from the delay (the frames available
  less the frames since the start of the cycle) and from what \<^verbatim>\<open>snd_pcm_rewind\<close> returns if it
  is called, to the state afterwards and \<^verbatim>\<open>current_resample_factor\<close>. The reads that skip frames
  do not touch the controller. The rest of \<^verbatim>\<open>process\<close> reads and converts samples with that
  factor and leaves these variables alone.\<close>

definition process :: "audio \<Rightarrow> int \<Rightarrow> int \<Rightarrow> audio \<times> real" where
  "process a0 delay0 rewound =
     (let (a1, delay1) =
            (if delay0 > target_delay a0 + max_diff a0
             then (restart_cycle a0, delay0 + (delay0 - target_delay a0))
             else (a0, delay0));
          (a2, delay2) =
            (if delay1 < target_delay a1 - max_diff a1
             then (restart_cycle a1, delay1 + rewound)
             else (a1, delay1));
          offset = real_of_int (delay2 - target_delay a2);
          arr = (offset_array a2)[offset_differential_index a2 mod smooth_size := offset];
          idx = offset_differential_index a2 + 1;
          smooth_offset =
            fold (\<lambda>i s. s + arr ! ((i + idx - 1) mod smooth_size) * window_array a2 ! i)
              [0 ..< smooth_size] 0.0
            / real smooth_size;
          integral = offset_integral a2 + smooth_offset;
          smooth_offset = (if \<bar>smooth_offset\<bar> < pclamp then 0.0 else smooth_offset);
          current_resample_factor =
            static_resample_factor a2 - smooth_offset / real_of_int catch_factor
              - integral / real_of_int catch_factor / real_of_int catch_factor2;
          current_resample_factor =
            real_of_int \<lfloor>(current_resample_factor - resample_mean a2) * controlquant + 0.5\<rfloor>
              / controlquant + resample_mean a2;
          current_resample_factor =
            (if current_resample_factor < MIN_RESAMPLE_FACTOR then MIN_RESAMPLE_FACTOR
             else if current_resample_factor > MAX_RESAMPLE_FACTOR then MAX_RESAMPLE_FACTOR
             else current_resample_factor)
      in (a2\<lparr>offset_array := arr, offset_differential_index := idx,
             offset_integral := integral,
             resample_mean := 0.9999 * resample_mean a2 + 0.0001 * current_resample_factor\<rparr>,
          current_resample_factor))"

text \<open>Successive callbacks, each with its delay and the result of a rewind; the factor of the
  last one is returned, \<open>f0\<close> if there is none.\<close>

fun callbacks :: "audio \<Rightarrow> real \<Rightarrow> (int \<times> int) list \<Rightarrow> audio \<times> real" where
  "callbacks a f0 [] = (a, f0)"
| "callbacks a f0 ((delay, rewound) # rest) =
     (let (a', f) = process a delay rewound in callbacks a' f rest)"

section \<open>Inputs for the examples\<close>

text \<open>The FM band of a tuner without the low-range capability (divider 16) and of one with
  it (divider 16000), tuned to 98.5 MHz, no program known yet, a tuner that accepts every
  frequency it is given.\<close>

definition fm_band :: "int \<Rightarrow> globals" where
  "fm_band divider =
     \<lparr>verbose = 0, frequencyDivider = divider, minFrequency = 87.5, currentFrequency = 98.5,
      maxFrequency = 108.0, programs = [], tuner_accepts = (\<lambda>raw. True)\<rparr>"

text \<open>The decoder at the start of \<^verbatim>\<open>decodeRds\<close>, the variables the source leaves
  uninitialised taken as zero.\<close>

definition decoder_start :: decoder where
  "decoder_start =
     decoder_init (fm_band 16000) \<lparr>lsb = 0, msb = 0, block = 0\<rparr> 0
       (replicate 8 0) (replicate 8 0) False"

text \<open>A poll that finds one full record on the radio and nothing on the keyboard.\<close>

definition radio_block :: "byte \<Rightarrow> byte \<Rightarrow> byte \<Rightarrow> poll_result" where
  "radio_block m l b = Poll_ready (Some (Radio_block \<lparr>lsb = l, msb = m, block = b\<rparr>)) None"

text \<open>The four polls that deliver the eight bytes of a group, blocks 0 to 3 in order.\<close>

definition group_polls :: "byte list \<Rightarrow> poll_result list" where
  "group_polls gd =
     [radio_block (gd ! 0) (gd ! 1) 0, radio_block (gd ! 2) (gd ! 3) 1,
      radio_block (gd ! 4) (gd ! 5) 2, radio_block (gd ! 6) (gd ! 7) 3]"

text \<open>The table of the next-program scenario, tuned away from both stations.\<close>

definition two_programs :: globals where
  "two_programs = (fm_band 16000)\<lparr>currentFrequency := 90.0,
      programs := [zero_program\<lparr>pd_id := 0x1111, pd_freq := 98.5\<rparr>,
                   zero_program\<lparr>pd_id := 0x2222, pd_freq := 102.1\<rparr>]\<rparr>"

text \<open>The two lines that report a traffic announcement of the tuned program.\<close>

definition ta_line :: "event \<Rightarrow> bool" where
  "ta_line e = (e = Printf ''Traffic announcement on'' \<or> e = Printf ''Traffic announcement off'')"

text \<open>The controller as \<^verbatim>\<open>main\<close> leaves it for a server at 48000 Hz and a sound card at
  96000 Hz, with a target delay of 4096 frames and half the capture buffer as the largest
  deviation.\<close>

definition audio_start :: audio where
  "audio_start =
     \<lparr>resample_mean = 48000 / 96000, static_resample_factor = 48000 / 96000,
      offset_array = fst setupSmoothing, window_array = snd setupSmoothing,
      offset_differential_index = 0, offset_integral = 0,
      target_delay = 4096, max_diff = 4096\<rparr>"

text \<open>The controller at rest: no offset in the ring, no integral, the mean at the static
  factor, the static factor within the clamp.\<close>

definition steady :: "audio \<Rightarrow> bool" where
  "steady a = (offset_array a = replicate smooth_size 0 \<and> offset_integral a = 0
     \<and> resample_mean a = static_resample_factor a \<and> 0 \<le> max_diff a
     \<and> MIN_RESAMPLE_FACTOR \<le> static_resample_factor a
     \<and> static_resample_factor a \<le> MAX_RESAMPLE_FACTOR)"

text \<open>The conversion of group 4A in integer arithmetic, for dates from 1900-03-01 on, where
  every truncated quantity is positive: \<open>(m - 15078.2) / 365.25 = (20 m - 301564) / 7305\<close>,
  \<open>365.25 Y = 1461 Y / 4\<close>, and so on.\<close>

definition mjd_to_date_int :: "int \<Rightarrow> int \<times> int \<times> int" where
  "mjd_to_date_int m =
     (let Y = (20 * m - 301564) div 7305;
          A = (1461 * Y) div 4;
          M = (10000 * (m - A) - 149561000) div 306001;
          B = (306001 * M) div 10000;
          K = (if M = 14 \<or> M = 15 then 1 else 0)
      in (Y + K + 1900, M - 1 - K * 12, m - 14956 - A - B))"

text \<open>The round trip at one day, with bounds on the year, and a check of it over a range
  of days.\<close>

definition round_trip_at :: "int \<Rightarrow> int \<Rightarrow> int \<Rightarrow> bool" where
  "round_trip_at ylo yhi m =
     (case mjd_to_date_int m of
        (y, mo, d) \<Rightarrow> valid_date y mo d \<and> date_to_mjd y mo d = m \<and> ylo \<le> y \<and> y \<le> yhi)"

function round_trip_between :: "int \<Rightarrow> int \<Rightarrow> int \<Rightarrow> int \<Rightarrow> bool" where
  "round_trip_between ylo yhi lo hi =
     (if hi < lo then True
      else round_trip_at ylo yhi lo \<and> round_trip_between ylo yhi (lo + 1) hi)"
  by pat_completeness auto
termination
  by (relation "measure (\<lambda>(ylo, yhi, lo, hi). nat (hi + 1 - lo))") auto

declare round_trip_between.simps [simp del]

text \<open>The program table after a step, against the table before it: the PI codes of the old
  records are all there, in their places, new ones come behind them, and if no PI code
  occurred twice before, none does afterwards.\<close>

definition table_grows :: "ProgramData list \<Rightarrow> ProgramData list \<Rightarrow> bool" where
  "table_grows ps ps' =
     ((\<exists>ext. map pd_id ps' = map pd_id ps @ ext)
      \<and> (distinct (map pd_id ps) \<longrightarrow> distinct (map pd_id ps')))"

text \<open>A run that receives block 0 and block 1 of three groups, two of them of one program, and
  a complete group 14A that names a program twice.\<close>

definition three_stations :: "poll_result list" where
  "three_stations =
     [radio_block 0x11 0x11 0, radio_block 0x00 0x20 1,
      radio_block 0x22 0x22 0, radio_block 0x00 0x40 1,
      radio_block 0x11 0x11 0, radio_block 0xE0 0x00 1,
      radio_block 0x41 0x42 2, radio_block 0x33 0x33 3,
      radio_block 0x11 0x11 0, radio_block 0xE0 0x01 1,
      radio_block 0x43 0x44 2, radio_block 0x33 0x33 3]"

section \<open>Properties\<close>

subsection \<open>The clock of group 4A\<close>

lemma dispatch_4A_jan15:
  "dispatch_4A [0x42, 0x0E, 0x40, 0x01, 0xCB, 0xDE, 0xC4, 0xC2]
     = Some [Printf ''Date: 2020-01-15 13:19 (+01:00)'']"
  by code_simp

lemma dispatch_4A_claimed_bytes:
  "dispatch_4A [0x42, 0x0E, 0xCA, 0x7F, 0xA9, 0x0C, 0xC4, 0x02]
     = Some [Printf ''Date: 2187-04-07 13:16 (+01:00)'']"
  by code_simp

lemma run_jan15:
  "map_option snd (run decoder_start
      (group_polls [0x42, 0x0E, 0x40, 0x01, 0xCB, 0xDE, 0xC4, 0xC2]))
     = Some [Printf ''Date: 2020-01-15 13:19 (+01:00)'']"
  by code_simp

lemma run_claimed_bytes:
  "map_option snd (run decoder_start
      (group_polls [0x42, 0x0E, 0xCA, 0x7F, 0xA9, 0x0C, 0xC4, 0x02]))
     = Some [Printf ''Program type: Social affairs'']"
  by code_simp

text \<open>
  C5, as stated, fails. The bytes \<open>0x42 0x0E 0xCA 0x7F 0xA9 0x0C 0xC4 0x02\<close> do not encode the
  date and time the scenario describes. Taken through the 4A branch they hold the Modified
  Julian Date 119942 and the minute 16, and the line is not the expected one; received block
  by block, block 1 (\<open>0xCA 0x7F\<close>) carries group type 25 and no date line is printed at all.
\<close>

theorem clock_decode_claimed_bytes_counterexample:
  "dispatch_4A [0x42, 0x0E, 0xCA, 0x7F, 0xA9, 0x0C, 0xC4, 0x02]
     \<noteq> Some [Printf ''Date: 2020-01-15 13:19 (+01:00)'']
   \<and> map_option snd (run decoder_start
          (group_polls [0x42, 0x0E, 0xCA, 0x7F, 0xA9, 0x0C, 0xC4, 0x02]))
     \<noteq> Some [Printf ''Date: 2020-01-15 13:19 (+01:00)'']"
  by code_simp

text \<open>
  C5, amended: the type-4A group \<open>0x42 0x0E 0x40 0x01 0xCB 0xDE 0xC4 0xC2\<close> (Modified Julian
  Date 58863, 12:19 UTC, offset of two half hours) emits exactly the line
  \<open>Date: 2020-01-15 13:19 (+01:00)\<close>, both when the 4A branch is entered with these bytes in
  any state of the decoder and when the four blocks are received from the start. The bytes of
  the claim give \<open>Date: 2187-04-07 13:16 (+01:00)\<close> in the 4A branch, and only a program-type
  line when received block by block.
\<close>

theorem clock_decode:
  "dispatch (d\<lparr>groupType := 8, groupData := [0x42, 0x0E, 0x40, 0x01, 0xCB, 0xDE, 0xC4, 0xC2]\<rparr>)
     = Some (d\<lparr>groupType := 8, groupData := [0x42, 0x0E, 0x40, 0x01, 0xCB, 0xDE, 0xC4, 0xC2]\<rparr>,
             [Printf ''Date: 2020-01-15 13:19 (+01:00)''])
   \<and> map_option snd (run decoder_start
         (group_polls [0x42, 0x0E, 0x40, 0x01, 0xCB, 0xDE, 0xC4, 0xC2]))
     = Some [Printf ''Date: 2020-01-15 13:19 (+01:00)'']
   \<and> dispatch (d\<lparr>groupType := 8, groupData := [0x42, 0x0E, 0xCA, 0x7F, 0xA9, 0x0C, 0xC4, 0x02]\<rparr>)
     = Some (d\<lparr>groupType := 8, groupData := [0x42, 0x0E, 0xCA, 0x7F, 0xA9, 0x0C, 0xC4, 0x02]\<rparr>,
             [Printf ''Date: 2187-04-07 13:16 (+01:00)''])
   \<and> map_option snd (run decoder_start
         (group_polls [0x42, 0x0E, 0xCA, 0x7F, 0xA9, 0x0C, 0xC4, 0x02]))
     = Some [Printf ''Program type: Social affairs'']"
  by (simp add: dispatch_def dispatch_4A_jan15 dispatch_4A_claimed_bytes run_jan15
        run_claimed_bytes)

subsection \<open>Setting the frequency\<close>

text \<open>Single precision at work: 0.1 and its sign, two ties that go to the even neighbour, a
  value below the smallest quantum, and the three products of the examples below.\<close>

lemma fl32_examples:
  "fl32 0.1 = 13421773 / 2 ^ 27" "fl32 (- 0.1) = - (13421773 / 2 ^ 27)"
  "fl32 16777217 = 16777216" "fl32 16777219 = 16777220" "fl32 (1 / 2 ^ 150) = 0"
  "fl32 1400.75 = 1400.75" "fl32 1400000.9765625 = 1400001"
  "fl32 (102.09999847412109375 * 16000) = 1633600"
  by code_simp+

text \<open>
  C2, as stated, fails: inside the range the register does not receive the rounded product.
  With divider 16 and 87.546875 MHz (both exact in a \<^verbatim>\<open>float\<close>, as is their product 1400.75)
  the source writes 1400, and the rounded product is 1401.
\<close>

theorem setTunerFrequency_round_counterexample:
  "setTunerFrequency (fm_band 16) 87.546875
     \<noteq> [Ioctl_S_FREQUENCY (round (87.546875 * real_of_int (frequencyDivider (fm_band 16))))]"
  by code_simp

text \<open>
  C2, amended: for every frequency \<open>f\<close>, \<^verbatim>\<open>setTunerFrequency\<close> only prints the out-of-range line,
  and does not write the frequency register, whenever \<open>f\<close> is not strictly between the minimum
  and the maximum; for every \<open>f\<close> strictly between them it writes the product of \<open>f\<close> and the
  divider as the multiplication in \<^verbatim>\<open>float\<close> leaves it, rounded to single precision, and then
  truncated towards zero by the conversion to the register, and nothing else but the error
  line of a failed ioctl. C defines the conversion when the truncated value fits the 32-bit
  register, and the statement is about that case.
\<close>

theorem setTunerFrequency_writes_truncated:
  "(\<not> (minFrequency g < f \<and> f < maxFrequency g) \<longrightarrow>
      setTunerFrequency g f = [Printf_not_in_range f (minFrequency g) (maxFrequency g)])
   \<and> (minFrequency g < f \<and> f < maxFrequency g
        \<and> 0 \<le> c_trunc (fl32 (f * fl32 (real_of_int (frequencyDivider g))))
        \<and> c_trunc (fl32 (f * fl32 (real_of_int (frequencyDivider g)))) < 2 ^ 32 \<longrightarrow>
      setTunerFrequency g f =
        Ioctl_S_FREQUENCY (c_trunc (fl32 (f * fl32 (real_of_int (frequencyDivider g)))))
        # (if tuner_accepts g (c_trunc (fl32 (f * fl32 (real_of_int (frequencyDivider g)))))
           then [] else [Perror ''ioctl VIDIOC_S_FREQUENCY'']))"
  by (auto simp: setTunerFrequency_def Let_def)

theorem setTunerFrequency_writes_truncated_witness:
  "setTunerFrequency (fm_band 16) 108 = [Printf_not_in_range 108 87.5 108]
   \<and> setTunerFrequency (fm_band 16) 87.546875 = [Ioctl_S_FREQUENCY 1400]
   \<and> setTunerFrequency (fm_band 16000) 87.50006103515625 = [Ioctl_S_FREQUENCY 1400001]"
proof -
  have out: "\<not> (minFrequency (fm_band 16) < 108 \<and> 108 < maxFrequency (fm_band 16))"
    by (simp add: fm_band_def)
  have lim: "minFrequency (fm_band 16) = 87.5" "maxFrequency (fm_band 16) = 108"
    by (simp_all add: fm_band_def)
  have a: "setTunerFrequency (fm_band 16) 108 = [Printf_not_in_range 108 87.5 108]"
    using setTunerFrequency_writes_truncated [of "fm_band 16" 108] out
    by (simp only: lim) simp
  have in1: "minFrequency (fm_band 16) < 87.546875 \<and> 87.546875 < maxFrequency (fm_band 16)
      \<and> 0 \<le> c_trunc (fl32 (87.546875 * fl32 (real_of_int (frequencyDivider (fm_band 16)))))
      \<and> c_trunc (fl32 (87.546875 * fl32 (real_of_int (frequencyDivider (fm_band 16))))) < 2 ^ 32"
    by code_simp
  have v1: "c_trunc (fl32 (87.546875 * fl32 (real_of_int (frequencyDivider (fm_band 16)))))
      = 1400"
    by code_simp
  have ok1: "tuner_accepts (fm_band 16) 1400" by (simp add: fm_band_def)
  have b: "setTunerFrequency (fm_band 16) 87.546875 = [Ioctl_S_FREQUENCY 1400]"
    using setTunerFrequency_writes_truncated [of "fm_band 16" "87.546875"] in1
    by (simp only: v1 ok1) simp
  have in2: "minFrequency (fm_band 16000) < 87.50006103515625
      \<and> 87.50006103515625 < maxFrequency (fm_band 16000)
      \<and> 0 \<le> c_trunc (fl32 (87.50006103515625
                 * fl32 (real_of_int (frequencyDivider (fm_band 16000)))))
      \<and> c_trunc (fl32 (87.50006103515625
                 * fl32 (real_of_int (frequencyDivider (fm_band 16000))))) < 2 ^ 32"
    by code_simp
  have v2: "c_trunc (fl32 (87.50006103515625
                 * fl32 (real_of_int (frequencyDivider (fm_band 16000))))) = 1400001"
    by code_simp
  have ok2: "tuner_accepts (fm_band 16000) 1400001" by (simp add: fm_band_def)
  have c: "setTunerFrequency (fm_band 16000) 87.50006103515625 = [Ioctl_S_FREQUENCY 1400001]"
    using setTunerFrequency_writes_truncated [of "fm_band 16000" "87.50006103515625"] in2
    by (simp only: v2 ok2) simp
  from a b c show ?thesis by blast
qed

subsection \<open>The program type of block 1\<close>

text \<open>
  C7 holds of the table the Glossary gives and fails on the source: the initialiser of
  \<^verbatim>\<open>programTypes\<close> lacks the comma between \<^verbatim>\<open>"Religion"\<close> and \<^verbatim>\<open>"Phone-in"\<close>, so the
  table has 30 entries, code 20 prints both names as one, every later code prints the name of
  its successor, and code 31 reads behind the array. The three runs receive block 0 with the
  PI code \<open>0x1234\<close> and then block 1 with the program type 20, 21 and 31.
\<close>

theorem program_type_table_shifted:
  "map_option snd (run decoder_start [radio_block 0x12 0x34 0, radio_block 0x02 0x80 1])
     = Some [Printf ''Program type: ReligionPhone-in'']
   \<and> map_option snd (run decoder_start [radio_block 0x12 0x34 0, radio_block 0x02 0xA0 1])
     = Some [Printf ''Program type: Travel'']
   \<and> run decoder_start [radio_block 0x12 0x34 0, radio_block 0x03 0xE0 1] = None"
  by code_simp

subsection \<open>The key \<open>+\<close>\<close>

text \<open>
  C8 fails on the source where the step leaves the band: at 107.98 MHz in a band from 87.5 to
  108 MHz the key \<open>+\<close> (\<open>0x2B\<close>) wraps the current frequency to the minimum, which
  \<^verbatim>\<open>setTunerFrequency\<close> rejects, its range test being strict. The tuner is not retuned, an
  out-of-range line is printed, and the line that reports the tuning follows all the same.
\<close>

theorem step_up_wraps_to_rejected_minimum:
  "snd (handle_key (decoder_start\<lparr>glob := (fm_band 16000)\<lparr>currentFrequency := 107.98\<rparr>\<rparr>) 0x2B)
     = [Printf_not_in_range 87.5 87.5 108.0, Printf_frequency_tuned 87.5]
   \<and> currentFrequency (glob (fst (handle_key
         (decoder_start\<lparr>glob := (fm_band 16000)\<lparr>currentFrequency := 107.98\<rparr>\<rparr>) 0x2B))) = 87.5"
  by code_simp

subsection \<open>The traffic announcement of group 0A\<close>

lemma dispatch_0A_name_keeps:
  "ta (fst (dispatch_0A_name d)) = ta d"
  "\<forall>e \<in> set (snd (dispatch_0A_name d)). \<not> ta_line e"
  by (simp_all add: dispatch_0A_name_def Let_def ta_line_def)

lemma dispatch_0A_stereo_keeps:
  "ta (fst (dispatch_0A_stereo d)) = ta d"
  "\<forall>e \<in> set (snd (dispatch_0A_stereo d)). \<not> ta_line e"
  by (auto simp add: dispatch_0A_stereo_def Let_def ta_line_def split: if_splits)

lemma dispatch_0A_af_keeps: "ta (dispatch_0A_af d) = ta d"
  by (simp add: dispatch_0A_af_def Let_def)

lemma dispatch_0A_ta:
  "ta (fst (dispatch_0A d)) = ta (fst (dispatch_0A_traffic d))"
  by (simp add: dispatch_0A_def Let_def split_def dispatch_0A_af_keeps
        dispatch_0A_stereo_keeps dispatch_0A_name_keeps)

lemma dispatch_0A_events:
  "\<exists>rest. snd (dispatch_0A d) = snd (dispatch_0A_traffic d) @ rest
     \<and> (\<forall>e \<in> set rest. \<not> ta_line e)"
  using dispatch_0A_name_keeps(2) dispatch_0A_stereo_keeps(2)
  by (auto simp add: dispatch_0A_def Let_def split_def)

text \<open>
  C6, as stated, fails: a change of the TA bit alone is not reported. In the state below no
  announcement is recorded, the group has the TA bit set (\<open>group[3] = 0x10\<close>) and the TP bit
  clear (\<open>group[2] = 0x00\<close>); the 0A branch prints nothing and the recorded value stays.
\<close>

theorem ta_change_without_tp_counterexample:
  "groupType (decoder_start\<lparr>groupData := [0x12, 0x34, 0x00, 0x10, 0, 0, 0x41, 0x42]\<rparr>) = 0
   \<and> (uint ([0x12, 0x34, 0x00, 0x10, 0, 0, 0x41, 0x42 :: byte] ! 3) AND 0x10 = 0x10)
      \<noteq> ta decoder_start
   \<and> map_option snd
        (dispatch (decoder_start\<lparr>groupData := [0x12, 0x34, 0x00, 0x10, 0, 0, 0x41, 0x42]\<rparr>))
      = Some []
   \<and> map_option (\<lambda>r. ta (fst r))
        (dispatch (decoder_start\<lparr>groupData := [0x12, 0x34, 0x00, 0x10, 0, 0, 0x41, 0x42]\<rparr>))
      = Some (ta decoder_start)"
  by code_simp

text \<open>
  C6, amended: for every dispatched type-0A group whose TP bit (\<open>group[2] & 0x04\<close>) is set,
  whenever the TA bit (\<open>group[3] & 0x10\<close>) differs from the recorded traffic-announcement value,
  the line \<open>Traffic announcement on\<close> or \<open>off\<close> is emitted, first of the lines of the group, and
  the recorded value is updated. When the TP bit is clear the recorded value stays as it is and
  neither line is emitted.
\<close>

theorem traffic_announcement_change:
  assumes "groupType d = 0"
  shows "(uint (groupData d ! 2) AND 0x04 = 0x04
            \<and> (uint (groupData d ! 3) AND 0x10 = 0x10) \<noteq> ta d \<longrightarrow>
          (\<exists>d' rest. dispatch d =
              Some (d', Printf (''Traffic announcement '' @ (if ta d then ''off'' else ''on'')) # rest)
            \<and> ta d' = (\<not> ta d)))
       \<and> (uint (groupData d ! 2) AND 0x04 \<noteq> 0x04 \<longrightarrow>
          (\<exists>d' e. dispatch d = Some (d', e) \<and> ta d' = ta d
            \<and> Printf ''Traffic announcement on'' \<notin> set e
            \<and> Printf ''Traffic announcement off'' \<notin> set e))"
proof -
  have disp: "dispatch d = Some (fst (dispatch_0A d), snd (dispatch_0A d))"
    using assms by (simp add: dispatch_def)
  obtain rest where rest: "snd (dispatch_0A d) = snd (dispatch_0A_traffic d) @ rest"
    and clean: "\<forall>e \<in> set rest. \<not> ta_line e"
    using dispatch_0A_events by blast
  show ?thesis
  proof (intro conjI impI)
    assume "uint (groupData d ! 2) AND 0x04 = 0x04
            \<and> (uint (groupData d ! 3) AND 0x10 = 0x10) \<noteq> ta d"
    then have "dispatch_0A_traffic d =
      (d\<lparr>ta := \<not> ta d\<rparr>,
       [Printf (''Traffic announcement '' @ (if ta d then ''off'' else ''on''))])"
      by (auto simp: dispatch_0A_traffic_def Let_def)
    then show "\<exists>d' rest. dispatch d =
              Some (d', Printf (''Traffic announcement '' @ (if ta d then ''off'' else ''on'')) # rest)
            \<and> ta d' = (\<not> ta d)"
      using disp rest by (simp add: dispatch_0A_ta)
  next
    assume "uint (groupData d ! 2) AND 0x04 \<noteq> 0x04"
    then have "dispatch_0A_traffic d = (d, [])"
      by (simp add: dispatch_0A_traffic_def Let_def)
    then show "\<exists>d' e. dispatch d = Some (d', e) \<and> ta d' = ta d
            \<and> Printf ''Traffic announcement on'' \<notin> set e
            \<and> Printf ''Traffic announcement off'' \<notin> set e"
      using disp rest clean by (auto simp: dispatch_0A_ta ta_line_def)
  qed
qed

theorem traffic_announcement_change_witness:
  "(\<exists>d' rest.
      dispatch (decoder_start\<lparr>groupData := [0x12, 0x34, 0x04, 0x10, 0, 0, 0x41, 0x42]\<rparr>)
        = Some (d', Printf ''Traffic announcement on'' # rest) \<and> ta d' = True)
   \<and> (\<exists>d' e.
      dispatch (decoder_start\<lparr>groupData := [0x12, 0x34, 0x00, 0x10, 0, 0, 0x41, 0x42]\<rparr>)
        = Some (d', e) \<and> ta d' = False
      \<and> Printf ''Traffic announcement on'' \<notin> set e
      \<and> Printf ''Traffic announcement off'' \<notin> set e)"
  using traffic_announcement_change
          [of "decoder_start\<lparr>groupData := [0x12, 0x34, 0x04, 0x10, 0, 0, 0x41, 0x42]\<rparr>"]
        traffic_announcement_change
          [of "decoder_start\<lparr>groupData := [0x12, 0x34, 0x00, 0x10, 0, 0, 0x41, 0x42]\<rparr>"]
  by (simp add: decoder_start_def decoder_init_def)

subsection \<open>Duplicate groups\<close>

text \<open>
  C3: when block 3 completes a group whose eight bytes equal those of the group processed
  before (\<open>lastGroupData\<close>), the iteration emits nothing and dispatches nothing: apart from the
  record read, the count of blocks and the accumulator, which holds the completed group, the
  decoder and the program table are as before.
\<close>

theorem duplicate_group_suppressed:
  assumes "block rd AND 0x07 = 3" and "block rd AND 0x80 \<noteq> 0x80"
    and "(groupData d)[6 := msb rd, 7 := lsb rd] = lastGroupData d"
  shows "iteration d (Poll_ready (Some (Radio_block rd)) None)
           = Some (d\<lparr>rdsData := rd, blockCount := blockCount d + 1,
                      groupData := lastGroupData d\<rparr>, [], True)"
  using assms
  by (simp add: iteration_def read_fds_def read_stdin_def process_block_def Let_def)

theorem duplicate_group_suppressed_witness:
  "iteration (decoder_start\<lparr>groupData := [1, 2, 3, 4, 5, 6, 0, 0],
                             lastGroupData := [1, 2, 3, 4, 5, 6, 7, 8]\<rparr>)
     (radio_block 7 8 3)
   = Some (decoder_start\<lparr>rdsData := \<lparr>lsb = 8, msb = 7, block = 3\<rparr>, blockCount := 1,
             groupData := [1, 2, 3, 4, 5, 6, 7, 8], lastGroupData := [1, 2, 3, 4, 5, 6, 7, 8]\<rparr>,
           [], True)"
  using duplicate_group_suppressed
    [of "\<lparr>lsb = 8, msb = 7, block = 3\<rparr>"
        "decoder_start\<lparr>groupData := [1, 2, 3, 4, 5, 6, 0, 0],
                             lastGroupData := [1, 2, 3, 4, 5, 6, 7, 8]\<rparr>"]
  by (simp add: radio_block_def decoder_start_def decoder_init_def)

subsection \<open>The key \<open>n\<close>\<close>

lemma nextProgram_loop_no_match:
  "\<forall>i \<in> set is. \<not> (currentFrequency g \<ge> pd_freq (programs g ! i) - 0.09
        \<and> currentFrequency g \<le> pd_freq (programs g ! i) + 0.09)
   \<Longrightarrow> nextProgram_loop g is = (g, [])"
  by (induction "is") (auto simp: Let_def)

text \<open>
  C10: \<^verbatim>\<open>nextProgram\<close> does nothing when the table has at most one entry, or when no entry's
  frequency lies within 0.09 MHz of the current frequency: nothing is emitted, the tuner is
  not written, and the globals, the current frequency and the table among them, are as
  before. The same holds of the key \<open>n\<close> (\<open>0x6E\<close>), which calls it.
\<close>

theorem nextProgram_noop:
  assumes "length (programs g) \<le> 1
     \<or> (\<forall>pd \<in> set (programs g).
           \<not> (pd_freq pd - 0.09 \<le> currentFrequency g \<and> currentFrequency g \<le> pd_freq pd + 0.09))"
  shows "nextProgram g = (g, [])
       \<and> (glob d = g \<longrightarrow> handle_key d 0x6E = (d, []))"
proof -
  have np: "nextProgram g = (g, [])"
  proof (cases "length (programs g) \<le> 1")
    case True
    then show ?thesis by (simp add: nextProgram_def)
  next
    case False
    with assms have "\<forall>pd \<in> set (programs g).
           \<not> (pd_freq pd - 0.09 \<le> currentFrequency g \<and> currentFrequency g \<le> pd_freq pd + 0.09)"
      by blast
    then have "\<forall>i \<in> set [0 ..< length (programs g)].
        \<not> (currentFrequency g \<ge> pd_freq (programs g ! i) - 0.09
        \<and> currentFrequency g \<le> pd_freq (programs g ! i) + 0.09)"
      by simp
    then show ?thesis
      using False by (simp add: nextProgram_def nextProgram_loop_no_match)
  qed
  then show ?thesis
    by (auto simp: handle_key_def Let_def)
qed

theorem nextProgram_noop_witness:
  "nextProgram two_programs = (two_programs, [])
   \<and> handle_key (decoder_start\<lparr>glob := two_programs\<rparr>) 0x6E
       = (decoder_start\<lparr>glob := two_programs\<rparr>, [])
   \<and> nextProgram (fm_band 16000) = (fm_band 16000, [])"
  using nextProgram_noop [of two_programs "decoder_start\<lparr>glob := two_programs\<rparr>"]
        nextProgram_noop [of "fm_band 16000" decoder_start]
  by (simp add: two_programs_def fm_band_def zero_program_def)

subsection \<open>The controller at rest\<close>

lemma fold_add_zero:
  "(\<forall>i \<in> set xs. t i = (0::real)) \<Longrightarrow> fold (\<lambda>i s. s + t i) xs s0 = s0"
  by (induction xs arbitrary: s0) simp_all

lemma smooth_of_zeros:
  fixes arr w :: "real list"
  assumes "arr = replicate smooth_size 0"
  shows "fold (\<lambda>i s. s + arr ! ((i + k) mod smooth_size) * w ! i) [0 ..< smooth_size] 0 = 0"
proof -
  have "0 < smooth_size" by (simp add: smooth_size_def)
  then have "\<forall>i \<in> set [0 ..< smooth_size]. arr ! ((i + k) mod smooth_size) * w ! i = 0"
    using assms by simp
  then show ?thesis
    by (rule fold_add_zero [where t = "\<lambda>i. arr ! ((i + k) mod smooth_size) * w ! i"])
qed

lemma process_steady:
  assumes "steady a"
  shows "process a (target_delay a) r
           = (a\<lparr>offset_differential_index := offset_differential_index a + 1\<rparr>,
              static_resample_factor a)"
proof -
  obtain rm sf oa wa idx oi td md
    where a: "a = \<lparr>resample_mean = rm, static_resample_factor = sf, offset_array = oa,
                     window_array = wa, offset_differential_index = idx, offset_integral = oi,
                     target_delay = td, max_diff = md\<rparr>"
    by (cases a) auto
  from assms a have oa: "oa = replicate smooth_size 0" and oi: "oi = 0" and rm: "rm = sf"
    and md: "0 \<le> md" and lo: "MIN_RESAMPLE_FACTOR \<le> sf" and hi: "sf \<le> MAX_RESAMPLE_FACTOR"
    by (simp_all add: steady_def)
  have z: "oa[idx mod smooth_size := 0] = oa"
    using oa by (auto intro!: nth_equalityI simp: nth_list_update)
  have s: "fold (\<lambda>i s. s + oa ! ((i + idx) mod smooth_size) * wa ! i) [0 ..< smooth_size] 0 = 0"
    using oa by (rule smooth_of_zeros)
  show ?thesis
    unfolding a using md lo hi
    by (simp add: process_def Let_def z s oi rm pclamp_def controlquant_def)
qed

lemma callbacks_steady:
  assumes "steady a" and "\<forall>c \<in> set cs. fst c = target_delay a" and "cs \<noteq> []"
  shows "snd (callbacks a f0 cs) = static_resample_factor a
     \<and> resample_mean (fst (callbacks a f0 cs)) = static_resample_factor a"
  using assms
proof (induction cs arbitrary: a f0)
  case Nil
  then show ?case by simp
next
  case (Cons c cs)
  obtain delay r where c: "c = (delay, r)" by (cases c)
  let ?a = "a\<lparr>offset_differential_index := offset_differential_index a + 1\<rparr>"
  have st: "steady ?a" using Cons.prems(1) by (simp add: steady_def)
  have step: "callbacks a f0 (c # cs) = callbacks ?a (static_resample_factor a) cs"
    using Cons.prems c by (simp add: process_steady)
  show ?case
  proof (cases cs)
    case Nil
    then show ?thesis using step Cons.prems(1) by (simp add: steady_def)
  next
    case (Cons c' cs')
    then show ?thesis
      using Cons.IH [of ?a "static_resample_factor a"] st Cons.prems(2) step by simp
  qed
qed

text \<open>
  C9: with the static factor 48000/96000, the mean at the static factor, a target delay of 4096
  frames, no integral and an empty ring, 512 callbacks that each find a delay of 4096 frames
  (offset 0) leave the resample factor within \<open>1 / controlquant\<close> of 0.5. The window may
  be the Hann window or any other, and what a rewind would return is not consulted. In the
  exact arithmetic of the embedding the factor is 0.5 after every callback; the rounding of
  \<^verbatim>\<open>double\<close> is many orders of magnitude below the bound.
\<close>

theorem controller_converges:
  assumes "static_resample_factor a = 48000 / 96000"
    and "resample_mean a = static_resample_factor a"
    and "target_delay a = 4096" and "0 \<le> max_diff a"
    and "offset_integral a = 0" and "offset_array a = replicate smooth_size 0"
  shows "\<bar>snd (callbacks a f0 (replicate 512 (4096, r))) - 0.5\<bar> < 1 / controlquant"
proof -
  have "steady a"
    using assms by (simp add: steady_def MIN_RESAMPLE_FACTOR_def MAX_RESAMPLE_FACTOR_def)
  then have "snd (callbacks a f0 (replicate 512 (4096, r))) = static_resample_factor a"
    using callbacks_steady [of a "replicate 512 (4096, r)" f0] assms(3) by simp
  then show ?thesis
    using assms(1) by (simp add: controlquant_def)
qed

theorem controller_converges_witness:
  "\<bar>snd (callbacks audio_start 1 (replicate 512 (4096, 0))) - 0.5\<bar> < 1 / controlquant"
  using controller_converges [of audio_start 1 0]
  by (simp add: audio_start_def setupSmoothing_def)

subsection \<open>The date of group 4A\<close>

lemma c_trunc_fraction:
  assumes "0 \<le> a" and "0 < b"
  shows "c_trunc (real_of_int a / real_of_int b) = a div b"
  using assms by (simp add: c_trunc_def floor_divide_of_int_eq)

lemma div_lower:
  fixes a b q :: int
  assumes "0 < b" and "q = a div b"
  shows "b * q \<le> a" and "a < b * q + b"
proof -
  define r where "r = a mod b"
  have "q * b + r = a" by (simp add: assms(2) r_def)
  moreover have "0 \<le> r" and "r < b" using assms(1) by (simp_all add: r_def)
  ultimately show "b * q \<le> a" and "a < b * q + b"
    by (simp_all add: mult.commute)
qed

lemma month_numerator:
  fixes m A :: int
  assumes "A \<le> m - 15079"
  shows "0 \<le> 10000 * (m - A) - 149561000"
proof -
  have "14957 \<le> m - A" using assms by linarith
  then show ?thesis by simp
qed

lemma mjd_year_int:
  fixes m :: int
  assumes "15079 \<le> m"
  shows "mjd_year m = (20 * m - 301564) div 7305"
proof -
  have e: "(real_of_int m - 15078.2) / 365.25
             = real_of_int (20 * m - 301564) / real_of_int 7305"
    by simp
  have "0 \<le> 20 * m - 301564" using assms by simp
  then show ?thesis
    unfolding mjd_year_def e by (rule c_trunc_fraction) simp
qed

lemma year_days_int:
  fixes Y :: int
  assumes "0 \<le> Y"
  shows "c_trunc (real_of_int Y * 365.25) = (1461 * Y) div 4"
proof -
  have e: "real_of_int Y * 365.25 = real_of_int (1461 * Y) / real_of_int 4"
    by simp
  have "0 \<le> 1461 * Y" using assms by simp
  then show ?thesis
    unfolding e by (rule c_trunc_fraction) simp
qed

lemma month_days_int:
  fixes M :: int
  assumes "0 \<le> M"
  shows "c_trunc (real_of_int M * 30.6001) = (306001 * M) div 10000"
proof -
  have e: "real_of_int M * 30.6001 = real_of_int (306001 * M) / real_of_int 10000"
    by simp
  have "0 \<le> 306001 * M" using assms by simp
  then show ?thesis
    unfolding e by (rule c_trunc_fraction) simp
qed

lemma days_below:
  fixes m Y A :: int
  assumes "15079 \<le> m" and Y: "Y = (20 * m - 301564) div 7305" and A: "A = (1461 * Y) div 4"
  shows "0 \<le> Y" and "A \<le> m - 15079"
proof -
  have y: "7305 * Y \<le> 20 * m - 301564"
    using div_lower(1) [OF _ Y] by simp
  have a: "4 * A \<le> 1461 * Y"
    using div_lower(1) [OF _ A] by simp
  show "0 \<le> Y" using assms(1) by (simp add: Y)
  show "A \<le> m - 15079" using y a by linarith
qed

lemma mjd_month_int:
  fixes m Y A :: int
  assumes "15079 \<le> m" and Y: "Y = (20 * m - 301564) div 7305" and A: "A = (1461 * Y) div 4"
  shows "mjd_month m = (10000 * (m - A) - 149561000) div 306001"
proof -
  have yr: "mjd_year m = Y" using assms(1) by (simp add: mjd_year_int Y)
  have "0 \<le> Y" using days_below(1) [OF assms] .
  then have dy: "c_trunc (real_of_int Y * 365.25) = A"
    by (simp only: year_days_int A)
  have e: "((real_of_int m - 14956.1) - real_of_int A) / 30.6001
          = real_of_int (10000 * (m - A) - 149561000) / real_of_int 306001"
    by simp
  have "0 \<le> 10000 * (m - A) - 149561000"
    using days_below(2) [OF assms] by (rule month_numerator)
  then show ?thesis
    unfolding mjd_month_def yr dy e by (rule c_trunc_fraction) simp
qed

lemma mjd_to_date_int:
  fixes m :: int
  assumes "15079 \<le> m"
  shows "mjd_to_date m = mjd_to_date_int m"
proof -
  define Y where "Y = (20 * m - 301564) div 7305"
  define A where "A = (1461 * Y) div 4"
  define M where "M = (10000 * (m - A) - 149561000) div 306001"
  have yr: "mjd_year m = Y" using assms by (simp add: mjd_year_int Y_def)
  have mo: "mjd_month m = M" using mjd_month_int [OF assms Y_def A_def] by (simp add: M_def)
  have "0 \<le> Y" using days_below(1) [OF assms Y_def A_def] .
  then have dy: "c_trunc (real_of_int Y * 365.25) = A"
    by (simp only: year_days_int A_def)
  have "0 \<le> 10000 * (m - A) - 149561000"
    using days_below(2) [OF assms Y_def A_def] by (rule month_numerator)
  then have "0 \<le> M" by (simp add: M_def)
  then have dm: "c_trunc (real_of_int M * 30.6001) = (306001 * M) div 10000"
    by (simp only: year_days_int month_days_int)
  have "mjd_to_date m =
      (Y + (if M = 14 \<or> M = 15 then 1 else 0) + 1900,
       M - 1 - (if M = 14 \<or> M = 15 then 1 else 0) * 12,
       m - 14956 - A - (306001 * M) div 10000)"
    by (simp only: mjd_to_date_def mjd_K_def mjd_day_def yr mo dy dm)
  also have "\<dots> = mjd_to_date_int m"
    by (simp add: mjd_to_date_int_def Let_def Y_def A_def M_def)
  finally show ?thesis .
qed

lemma mjd_to_date_int_shift:
  fixes m k :: int
  shows "mjd_to_date_int (m + 1461 * k)
           = (case mjd_to_date_int m of (y, mo, d) \<Rightarrow> (y + 4 * k, mo, d))"
proof -
  define Y where "Y = (20 * m - 301564) div 7305"
  define A where "A = (1461 * Y) div 4"
  have "20 * (m + 1461 * k) - 301564 = (20 * m - 301564) + (4 * k) * 7305" by simp
  then have Y': "(20 * (m + 1461 * k) - 301564) div 7305 = Y + 4 * k"
    by (simp only: Y_def div_mult_self1)
  have "1461 * (Y + 4 * k) = 1461 * Y + (1461 * k) * 4" by simp
  then have A': "(1461 * (Y + 4 * k)) div 4 = A + 1461 * k"
    by (simp only: A_def div_mult_self1)
  have d: "m + 1461 * k - (A + 1461 * k) = m - A" by simp
  show ?thesis
    unfolding mjd_to_date_int_def Let_def Y' A' d
    by (simp add: Y_def A_def)
qed


lemma century_terms:
  fixes z :: int
  assumes "1900 \<le> z" and "z \<le> 2099"
  shows "z div 100 - z div 400 = 15"
proof (cases "z \<le> 1999")
  case True
  have "1900 div 100 \<le> z div 100" using assms(1) by (rule zdiv_mono1) simp
  moreover have "z div 100 \<le> 1999 div 100" using True by (rule zdiv_mono1) simp
  moreover have "1900 div 400 \<le> z div 400" using assms(1) by (rule zdiv_mono1) simp
  moreover have "z div 400 \<le> 1999 div 400" using True by (rule zdiv_mono1) simp
  ultimately show ?thesis by simp
next
  case False
  then have lo: "2000 \<le> z" by simp
  have "2000 div 100 \<le> z div 100" using lo by (rule zdiv_mono1) simp
  moreover have "z div 100 \<le> 2099 div 100" using assms(2) by (rule zdiv_mono1) simp
  moreover have "2000 div 400 \<le> z div 400" using lo by (rule zdiv_mono1) simp
  moreover have "z div 400 \<le> 2099 div 400" using assms(2) by (rule zdiv_mono1) simp
  ultimately show ?thesis by simp
qed

lemma leap_year_every_fourth:
  fixes y :: int
  assumes "1901 \<le> y" and "y \<le> 2099"
  shows "leap_year y = (y mod 4 = 0)"
  using assms unfolding leap_year_def by presburger

lemma days_before_year_linear:
  fixes a b a' b' q q' y k :: int
  assumes "a - b = 15" and "a' - b' = 15" and "q' = q + k"
  shows "365 * (y + 4 * k - 1) + q' - a' + b' = 365 * (y - 1) + q - a + b + 1461 * k"
proof -
  have "a = b + 15" and "a' = b' + 15" using assms by simp_all
  then show ?thesis using assms(3) by simp
qed

lemma days_before_year_shift:
  fixes y k :: int
  assumes "1901 \<le> y" and "y \<le> 2100" and "1901 \<le> y + 4 * k" and "y + 4 * k \<le> 2100"
  shows "days_before_year (y + 4 * k) = days_before_year y + 1461 * k"
proof -
  have c1: "(y - 1) div 100 - (y - 1) div 400 = 15"
    using assms by (intro century_terms) simp_all
  have c2: "(y + 4 * k - 1) div 100 - (y + 4 * k - 1) div 400 = 15"
    using assms by (intro century_terms) simp_all
  have "y + 4 * k - 1 = (y - 1) + k * 4" by simp
  then have q: "(y + 4 * k - 1) div 4 = (y - 1) div 4 + k"
    by (simp only: div_mult_self1) 
  show ?thesis
    unfolding days_before_year_def by (rule days_before_year_linear [OF c1 c2 q])
qed


lemma date_shift:
  fixes y k :: int
  assumes "1901 \<le> y" and "y \<le> 2099" and "1901 \<le> y + 4 * k" and "y + 4 * k \<le> 2099"
  shows "valid_date (y + 4 * k) mo d = valid_date y mo d"
    and "date_to_mjd (y + 4 * k) mo d = date_to_mjd y mo d + 1461 * k"
proof -
  have "leap_year (y + 4 * k) = leap_year y"
    using assms by (simp add: leap_year_every_fourth)
  then have dim: "days_in_month (y + 4 * k) = days_in_month y"
    by (simp add: days_in_month_def fun_eq_iff)
  show "valid_date (y + 4 * k) mo d = valid_date y mo d"
    by (simp add: valid_date_def dim)
  have "days_before_year (y + 4 * k) = days_before_year y + 1461 * k"
    using assms by (intro days_before_year_shift) simp_all
  then show "date_to_mjd (y + 4 * k) mo d = date_to_mjd y mo d + 1461 * k"
    by (simp add: date_to_mjd_def days_before_month_def dim)
qed

lemma round_trip_between_sound:
  "round_trip_between ylo yhi lo hi \<Longrightarrow> lo \<le> m \<Longrightarrow> m \<le> hi \<Longrightarrow> round_trip_at ylo yhi m"
proof (induction ylo yhi lo hi rule: round_trip_between.induct)
  case (1 ylo yhi lo hi)
  from "1.prems" have nl: "\<not> hi < lo" by simp
  with "1.prems"(1) have here: "round_trip_at ylo yhi lo"
    and rest: "round_trip_between ylo yhi (lo + 1) hi"
    by (simp_all add: round_trip_between.simps [of ylo yhi lo hi])
  show ?case
  proof (cases "m = lo")
    case True
    then show ?thesis using here by simp
  next
    case False
    then show ?thesis using "1.IH" [OF nl rest] "1.prems" by simp
  qed
qed

lemma base_first: "round_trip_between 1970 1971 40587 41316"
  by code_simp

lemma base_second: "round_trip_between 1972 1973 41317 42047"
  by code_simp

lemma last_day: "round_trip_at 2100 2100 88069"
  by code_simp


lemma round_trip_at_shift:
  fixes m0 k ylo yhi :: int
  assumes base: "round_trip_at ylo yhi m0" and "1970 \<le> ylo" and "0 \<le> k"
    and "yhi + 4 * k \<le> 2099"
  shows "round_trip_at 1970 2100 (m0 + 1461 * k)"
proof -
  obtain y mo d where md: "mjd_to_date_int m0 = (y, mo, d)"
    by (cases "mjd_to_date_int m0")
  from base md have v: "valid_date y mo d" and rt: "date_to_mjd y mo d = m0"
    and ylo: "ylo \<le> y" and yhi: "y \<le> yhi"
    by (simp_all add: round_trip_at_def)
  have y1: "1901 \<le> y" and y2: "y \<le> 2099" and y3: "1901 \<le> y + 4 * k"
    and y4: "y + 4 * k \<le> 2099"
    using assms(2-4) ylo yhi by simp_all
  have "mjd_to_date_int (m0 + 1461 * k) = (y + 4 * k, mo, d)"
    by (simp add: mjd_to_date_int_shift md)
  moreover have "valid_date (y + 4 * k) mo d"
    using date_shift(1) [OF y1 y2 y3 y4] v by simp
  moreover have "date_to_mjd (y + 4 * k) mo d = m0 + 1461 * k"
    using date_shift(2) [OF y1 y2 y3 y4] rt by simp
  moreover have "1970 \<le> y + 4 * k" and "y + 4 * k \<le> 2100"
    using assms(2,3) ylo y4 by simp_all
  ultimately show ?thesis
    by (simp add: round_trip_at_def)
qed

lemma round_trip_int:
  fixes m :: int
  assumes "40587 \<le> m" and "m \<le> 88069"
  shows "round_trip_at 1970 2100 m"
proof (cases "m = 88069")
  case True
  then show ?thesis using last_day by (simp add: round_trip_at_def split: prod.splits)
next
  case False
  define k where "k = (m - 40587) div 1461"
  define r where "r = (m - 40587) mod 1461"
  define m0 where "m0 = 40587 + r"
  have m: "m = m0 + 1461 * k"
    by (simp add: k_def r_def m0_def)
  have r0: "0 \<le> r" and r1: "r < 1461"
    by (simp_all add: r_def)
  have k0: "0 \<le> k"
    using assms(1) by (simp add: k_def)
  have "(m - 40587) div 1461 \<le> 47481 div 1461"
    using assms(2) False by (intro zdiv_mono1) simp_all
  then have k32: "k \<le> 32" by (simp add: k_def)
  have split: "m - 40587 = 1461 * k + r"
    by (simp add: k_def r_def)
  show ?thesis
  proof (cases "m0 \<le> 41316")
    case True
    have "40587 \<le> m0" using r0 by (simp add: m0_def)
    then have "round_trip_at 1970 1971 m0"
      using base_first True by (intro round_trip_between_sound [where lo = 40587 and hi = 41316])
    moreover have "1971 + 4 * k \<le> 2099" using k32 by simp
    ultimately show ?thesis
      unfolding m using k0 by (intro round_trip_at_shift [where ylo = 1970 and yhi = 1971]) simp_all
  next
    case False
    then have lo: "41317 \<le> m0" by simp
    have "m0 \<le> 42047" using r1 by (simp add: m0_def)
    then have "round_trip_at 1972 1973 m0"
      using base_second lo by (intro round_trip_between_sound [where lo = 41317 and hi = 42047])
    moreover have "k \<le> 31"
    proof (rule ccontr)
      assume "\<not> k \<le> 31"
      with k32 have "k = 32" by simp
      with split lo assms(2) \<open>m \<noteq> 88069\<close> show False by (simp add: m0_def)
    qed
    then have "1973 + 4 * k \<le> 2099" by simp
    ultimately show ?thesis
      unfolding m using k0 by (intro round_trip_at_shift [where ylo = 1972 and yhi = 1973]) simp_all
  qed
qed

text \<open>
  C4: for every Modified Julian Date from 40587 (1970-01-01) to 88069 (2100-01-01), the year,
  month and day that the formulas of group 4A give form a date of the Gregorian calendar, and
  counting the days of that date back gives the Modified Julian Date again. The proof
  reduces the formulas to integer division, checks the 1461 days from 1970-01-01 to
  1973-12-31 one by one, and carries them over the cycles of four years. The quotients that
  the source truncates differ from every integer by at least \<open>1 / 7305\<close>, \<open>1 / 306001\<close> and
  \<open>1 / 10000\<close>, so the rounding of \<^verbatim>\<open>double\<close> cannot change a truncated value.
\<close>

theorem mjd_round_trip:
  fixes m :: int
  assumes "40587 \<le> m" and "m \<le> 88069"
  shows "case mjd_to_date m of (y, mo, d) \<Rightarrow> valid_date y mo d \<and> date_to_mjd y mo d = m"
proof -
  have "mjd_to_date m = mjd_to_date_int m"
    using assms(1) by (intro mjd_to_date_int) simp
  then show ?thesis
    using round_trip_int [OF assms] by (simp add: round_trip_at_def split: prod.splits)
qed

theorem mjd_round_trip_witness:
  "case mjd_to_date 58863 of (y, mo, d) \<Rightarrow> valid_date y mo d \<and> date_to_mjd y mo d = 58863"
  using mjd_round_trip [of 58863] by simp

subsection \<open>The program table\<close>

lemma table_grows_refl: "table_grows ps ps"
  by (simp add: table_grows_def)

lemma table_grows_same: "map pd_id ps' = map pd_id ps \<Longrightarrow> table_grows ps ps'"
  by (simp add: table_grows_def)

lemma table_grows_trans:
  assumes "table_grows ps ps'" and "table_grows ps' ps''"
  shows "table_grows ps ps''"
  using assms by (auto simp: table_grows_def)

lemma getProgram_search_None:
  "(getProgram_search ps ident i = None) = (ident \<notin> pd_id ` set ps)"
  by (induction ps arbitrary: i) auto

lemma getProgram_search_Some:
  "getProgram_search ps ident i = Some j \<Longrightarrow>
     i \<le> j \<and> j - i < length ps \<and> pd_id (ps ! (j - i)) = ident"
proof (induction ps arbitrary: i)
  case Nil
  then show ?case by simp
next
  case (Cons pd ps)
  show ?case
  proof (cases "pd_id pd = ident")
    case True
    with Cons.prems show ?thesis by simp
  next
    case False
    with Cons.prems have "getProgram_search ps ident (Suc i) = Some j" by simp
    from Cons.IH [OF this] show ?thesis
      by (auto simp: Suc_diff_Suc Suc_le_eq less_imp_le)
  qed
qed

lemma getProgram_present:
  assumes "ident \<in> pd_id ` set ps"
  shows "snd (getProgram ps ident) = ps" and "fst (getProgram ps ident) < length ps"
    and "pd_id (ps ! fst (getProgram ps ident)) = ident"
proof -
  from assms obtain j where j: "getProgram_search ps ident 0 = Some j"
    using getProgram_search_None [of ps ident 0] by auto
  from getProgram_search_Some [OF j] have "j < length ps" and "pd_id (ps ! j) = ident"
    by simp_all
  then show "snd (getProgram ps ident) = ps" and "fst (getProgram ps ident) < length ps"
    and "pd_id (ps ! fst (getProgram ps ident)) = ident"
    by (simp_all add: getProgram_def j)
qed

lemma getProgram_absent:
  assumes "ident \<notin> pd_id ` set ps"
  shows "getProgram ps ident = (length ps, ps @ [zero_program\<lparr>pd_id := ident\<rparr>])"
  using assms getProgram_search_None [of ps ident 0] by (simp add: getProgram_def)

lemma getProgram_grows: "table_grows ps (snd (getProgram ps ident))"
proof (cases "ident \<in> pd_id ` set ps")
  case True
  then show ?thesis by (simp add: getProgram_present table_grows_refl)
next
  case False
  then show ?thesis by (simp add: getProgram_absent table_grows_def)
qed

lemma getProgram_index: "fst (getProgram ps ident) < length (snd (getProgram ps ident))"
proof (cases "ident \<in> pd_id ` set ps")
  case True
  then show ?thesis by (simp add: getProgram_present)
next
  case False
  then show ?thesis by (simp add: getProgram_absent)
qed

lemma set_program_ids:
  assumes "\<And>pd. pd_id (f pd) = pd_id pd"
  shows "map pd_id (programs (set_program g i f)) = map pd_id (programs g)"
proof (cases "i < length (programs g)")
  case True
  then show ?thesis
    by (simp add: set_program_def map_update assms list_update_same_conv)
next
  case False
  then show ?thesis by (simp add: set_program_def list_update_beyond)
qed

lemma EONAF_ids:
  "map pd_id (programs (fst (EONAF_handleFrequencyPair g this other f1 f2)))
     = map pd_id (programs g)"
proof (cases "other < length (programs g)")
  case True
  then show ?thesis
    by (simp add: EONAF_handleFrequencyPair_def Let_def map_update list_update_same_conv)
next
  case False
  then show ?thesis by (simp add: EONAF_handleFrequencyPair_def Let_def list_update_beyond)
qed

lemma dispatch_0A_parts_glob:
  "glob (fst (dispatch_0A_traffic d)) = glob d"
  "glob (fst (dispatch_0A_name d)) = glob d"
  "glob (fst (dispatch_0A_stereo d)) = glob d"
  "glob (dispatch_0A_af d) = glob d"
  by (simp_all add: dispatch_0A_traffic_def dispatch_0A_name_def
        dispatch_0A_stereo_def dispatch_0A_af_def Let_def split_def)

lemma dispatch_0A_glob: "glob (fst (dispatch_0A d)) = glob d"
  by (simp add: dispatch_0A_def Let_def split_def dispatch_0A_parts_glob)

lemma dispatch_2A_glob: "glob (fst (dispatch_2A d)) = glob d"
  by (simp add: dispatch_2A_def Let_def split_def)

lemma dispatch_14A_ids:
  assumes "dispatch_14A d = Some (d', e)"
  shows "map pd_id (programs (glob d'))
     = map pd_id (snd (getProgram (programs (glob d))
         (word_of_int (push_bit 8 (uint (groupData d ! 6)) OR uint (groupData d ! 7)))))"
proof -
  define gp where "gp = getProgram (programs (glob d))
         (word_of_int (push_bit 8 (uint (groupData d ! 6)) OR uint (groupData d ! 7)))"
  define gl where "gl = (glob d)\<lparr>programs := snd gp\<rparr>"
  define v where "v = uint (groupData d ! 3) AND 0x0F"
  define tp where "tp = after_getProgram
      (getProgram_reallocates (programs (glob d))
         (word_of_int (push_bit 8 (uint (groupData d ! 6)) OR uint (groupData d ! 7))))
      (thisProgram d)"
  have gl: "map pd_id (programs gl) = map pd_id (snd gp)" by (simp add: gl_def)
  have "map pd_id (programs (glob d')) = map pd_id (programs gl)"
    using assms
    unfolding dispatch_14A_def Let_def split_def gp_def [symmetric] gl_def [symmetric]
      v_def [symmetric] tp_def [symmetric]
    by (cases "0 \<le> v \<and> v \<le> 3"; cases "v = 5"; cases "v = 0xD"; cases tp)
       (auto simp: set_program_ids EONAF_ids split: if_splits)
  then show ?thesis by (simp add: gl gp_def)
qed

lemma dispatch_14A_grows:
  assumes "dispatch_14A d = Some (d', e)"
  shows "table_grows (programs (glob d)) (programs (glob d'))"
proof -
  have "table_grows
      (snd (getProgram (programs (glob d))
         (word_of_int (push_bit 8 (uint (groupData d ! 6)) OR uint (groupData d ! 7)))))
      (programs (glob d'))"
    by (rule table_grows_same) (rule dispatch_14A_ids [OF assms])
  with getProgram_grows show ?thesis by (rule table_grows_trans)
qed

lemma dispatch_grows:
  assumes "dispatch d = Some (d', e)"
  shows "table_grows (programs (glob d)) (programs (glob d'))"
proof -
  consider "groupType d = 0" | "groupType d = 4" | "groupType d = 8" | "groupType d = 16"
    | "groupType d = 28" | "groupType d \<notin> {0, 4, 8, 16, 28}"
    by auto
  then show ?thesis
  proof cases
    case 1
    with assms have "d' = fst (dispatch_0A d)" by (auto simp: dispatch_def)
    then show ?thesis by (simp add: dispatch_0A_glob table_grows_refl)
  next
    case 2
    with assms have "d' = fst (dispatch_2A d)" by (auto simp: dispatch_def)
    then show ?thesis by (simp add: dispatch_2A_glob table_grows_refl)
  next
    case 3
    with assms have "d' = d" by (auto simp: dispatch_def split: option.splits)
    then show ?thesis by (simp add: table_grows_refl)
  next
    case 4
    with assms have "d' = d" by (auto simp: dispatch_def)
    then show ?thesis by (simp add: table_grows_refl)
  next
    case 5
    with assms have "dispatch_14A d = Some (d', e)" by (auto simp: dispatch_def)
    then show ?thesis by (rule dispatch_14A_grows)
  next
    case 6
    with assms have "d' = d" by (auto simp: dispatch_def)
    then show ?thesis by (simp add: table_grows_refl)
  qed
qed

lemma block0_grows: "table_grows (programs (glob d)) (programs (glob (block0 d)))"
proof -
  define gp where "gp = getProgram (programs (glob d))
      (word_of_int (push_bit 8 (uint (msb (rdsData d))) OR uint (lsb (rdsData d))))"
  have "map pd_id (programs (glob (block0 d))) = map pd_id (snd gp)"
    unfolding block0_def Let_def split_def gp_def [symmetric]
    by (simp add: set_program_ids)
  then have "table_grows (snd gp) (programs (glob (block0 d)))"
    by (rule table_grows_same)
  with getProgram_grows [of "programs (glob d)"] show ?thesis
    unfolding gp_def by (rule table_grows_trans)
qed

lemma block1_grows:
  assumes "block1 d = Some (d', e)"
  shows "table_grows (programs (glob d)) (programs (glob d'))"
proof -
  have "map pd_id (programs (glob d')) = map pd_id (programs (glob d))"
    using assms
    by (auto simp: block1_def Let_def set_program_ids
          split: option.splits if_splits program_pointer.splits)
  then show ?thesis by (rule table_grows_same)
qed

lemma process_block_grows:
  assumes "process_block d0 = Some (d', e)"
  shows "table_grows (programs (glob d0)) (programs (glob d'))"
proof (cases "block (rdsData d0) AND 0x80 = 0x80")
  case True
  with assms have "glob d' = glob d0"
    by (auto simp: process_block_def Let_def)
  then show ?thesis by (simp add: table_grows_refl)
next
  case False
  define bn where "bn = uint (block (rdsData d0) AND 0x07)"
  define d1 where "d1 = d0\<lparr>blockCount := blockCount d0 + 1\<rparr>"
  define d2 where "d2 = (if bn = 0 then block0 d1 else d1)"
  have g2: "table_grows (programs (glob d0)) (programs (glob d2))"
    using block0_grows [of d1] by (simp add: d2_def d1_def table_grows_refl)
  from assms False obtain d3 e1
    where b1: "(if bn = 1 then block1 d2 else Some (d2, [])) = Some (d3, e1)"
      and bn3: "\<not> bn > 3"
      and rest: "(let d = d3\<lparr>groupData := (groupData d3)[nat (2 * bn) := msb (rdsData d0),
                                                          nat (2 * bn + 1) := lsb (rdsData d0)]\<rparr>
                   in if bn = 3 then
                        (if groupData d = lastGroupData d then Some (d, e1)
                         else
                           (case dispatch d of
                              None \<Rightarrow> None
                            | Some (d, e2) \<Rightarrow>
                                Some (d\<lparr>lastGroupData := groupData d,
                                        groupData := replicate 8 0\<rparr>, e1 @ e2)))
                      else Some (d, e1)) = Some (d', e)"
    unfolding process_block_def Let_def bn_def [symmetric] d1_def [symmetric]
      d2_def [symmetric]
    by (auto split: option.splits if_splits)
  have g3: "table_grows (programs (glob d2)) (programs (glob d3))"
    using b1 block1_grows [of d2 d3 e1] by (auto simp: table_grows_refl split: if_splits)
  define d4 where "d4 = d3\<lparr>groupData := (groupData d3)[nat (2 * bn) := msb (rdsData d0),
                                                          nat (2 * bn + 1) := lsb (rdsData d0)]\<rparr>"
  have g4: "table_grows (programs (glob d4)) (programs (glob d'))"
  proof (cases "bn = 3 \<and> groupData d4 \<noteq> lastGroupData d4")
    case True
    with rest obtain d5 e2 where "dispatch d4 = Some (d5, e2)" and "glob d' = glob d5"
      unfolding Let_def d4_def [symmetric] by (auto split: option.splits)
    then show ?thesis using dispatch_grows [of d4 d5 e2] by simp
  next
    case False
    with rest have "d' = d4"
      unfolding Let_def d4_def [symmetric] by (auto split: if_splits)
    then show ?thesis by (simp add: table_grows_refl)
  qed
  have "glob d4 = glob d3" by (simp add: d4_def)
  with g4 have "table_grows (programs (glob d3)) (programs (glob d'))" by simp
  with g2 g3 show ?thesis by (blast intro: table_grows_trans)
qed

lemma nextProgram_loop_programs: "programs (fst (nextProgram_loop g is)) = programs g"
  by (induction "is") (auto simp: Let_def split: option.splits)

lemma nextProgram_programs: "programs (fst (nextProgram g)) = programs g"
  by (simp add: nextProgram_def nextProgram_loop_programs)

lemma handle_key_programs: "programs (glob (fst (handle_key d c))) = programs (glob d)"
  by (simp add: handle_key_def Let_def split_def nextProgram_programs)

lemma read_fds_programs: "programs (glob (fst (read_fds d r s))) = programs (glob d)"
  by (auto simp: read_fds_def read_stdin_def Let_def split_def handle_key_programs
        split: option.splits radio_read.splits stdin_read.splits)

lemma iteration_grows:
  assumes "iteration d p = Some (d', e, go_on)"
  shows "table_grows (programs (glob d)) (programs (glob d'))"
proof (cases p)
  case Poll_timeout
  with assms show ?thesis by (auto simp: iteration_def table_grows_refl)
next
  case Poll_error
  with assms show ?thesis by (auto simp: iteration_def table_grows_refl)
next
  case (Poll_ready r s)
  with assms obtain e2 where "process_block (fst (read_fds d r s)) = Some (d', e2)"
    by (auto simp: iteration_def Let_def split_def split: option.splits if_splits)
  from process_block_grows [OF this] show ?thesis
    by (simp add: read_fds_programs)
qed

lemma run_grows:
  "run d ps = Some (d', e) \<Longrightarrow> table_grows (programs (glob d)) (programs (glob d'))"
proof (induction ps arbitrary: d d' e)
  case Nil
  then show ?case by (simp add: table_grows_refl)
next
  case (Cons p ps)
  from Cons.prems obtain d1 e1 go_on where it: "iteration d p = Some (d1, e1, go_on)"
    by (auto split: option.splits)
  have g1: "table_grows (programs (glob d)) (programs (glob d1))"
    using it by (rule iteration_grows)
  show ?case
  proof (cases go_on)
    case True
    with Cons.prems it obtain e2 where "run d1 ps = Some (d', e2)"
      by (auto split: option.splits)
    from Cons.IH [OF this] g1 show ?thesis by (blast intro: table_grows_trans)
  next
    case False
    with Cons.prems it have "d' = d1" by simp
    with g1 show ?thesis by simp
  qed
qed

lemma distinct_filter_le_one:
  assumes "distinct (map f xs)"
  shows "length (filter (\<lambda>x. f x = a) xs) \<le> 1"
  using assms
proof (induction xs)
  case Nil
  then show ?case by simp
next
  case (Cons x xs)
  show ?case
  proof (cases "f x = a")
    case True
    with Cons.prems have "\<forall>y \<in> set xs. f y \<noteq> a" by (fastforce simp: image_iff)
    then have "filter (\<lambda>x. f x = a) xs = []" by (simp add: filter_empty_conv)
    with True show ?thesis by simp
  next
    case False
    with Cons show ?thesis by simp
  qed
qed

lemma filter_le_one_distinct:
  assumes "\<forall>a. length (filter (\<lambda>x. f x = a) xs) \<le> 1"
  shows "distinct (map f xs)"
  using assms
proof (induction xs)
  case Nil
  then show ?case by simp
next
  case (Cons x xs)
  have tail: "\<forall>a. length (filter (\<lambda>x. f x = a) xs) \<le> 1"
  proof
    fix a
    have "length (filter (\<lambda>x. f x = a) xs) \<le> length (filter (\<lambda>x. f x = a) (x # xs))"
      by simp
    also have "\<dots> \<le> 1" using Cons.prems by blast
    finally show "length (filter (\<lambda>x. f x = a) xs) \<le> 1" .
  qed
  have "f x \<notin> f ` set xs"
  proof
    assume "f x \<in> f ` set xs"
    then obtain y where y: "y \<in> set xs" and fy: "f y = f x" by auto
    then have "filter (\<lambda>z. f z = f x) xs \<noteq> []"
      by (auto simp: filter_empty_conv)
    then have "0 < length (filter (\<lambda>z. f z = f x) xs)" by simp
    then have "1 < length (filter (\<lambda>z. f z = f x) (x # xs))" by simp
    moreover have "length (filter (\<lambda>z. f z = f x) (x # xs)) \<le> 1"
      using Cons.prems by blast
    ultimately show False by simp
  qed
  with Cons.IH [OF tail] show ?case by simp
qed

lemma unique_iff_distinct:
  "(\<forall>p. length (filter (\<lambda>pd. pd_id pd = p) ps) \<le> 1) = distinct (map pd_id ps)"
  using filter_le_one_distinct [of pd_id ps] distinct_filter_le_one [of pd_id ps] by blast

lemma run_three_stations:
  "run decoder_start three_stations \<noteq> None"
  "map pd_id (programs (glob (fst (the (run decoder_start three_stations)))))
     = [0x1111, 0x2222, 0x3333]"
  by code_simp+

text \<open>
  C1: along every run of the decoder loop that starts with at most one record for each PI
  code (the table is empty when the program starts), the table holds at most one record for
  each PI code after every iteration, and the PI codes it held before are still there, in
  their places: no record is removed. \<^verbatim>\<open>getProgram\<close> returns the record that has the PI code
  and leaves the table alone when there is one; otherwise it appends one record, all zero but
  for the PI code, and returns it; and it keeps the table free of duplicates. The keys and
  \<^verbatim>\<open>nextProgram\<close> do not touch the table, and the other writes change fields other than the
  PI code. A run is one whose behaviour C defines: it ends (\<open>None\<close>) where the source would
  read or write through \<^verbatim>\<open>thisProgram\<close> after \<^verbatim>\<open>getProgram\<close> has reallocated the table.
\<close>

theorem program_table_unique:
  assumes "run d polls = Some (d', e)"
    and "\<forall>p. length (filter (\<lambda>pd. pd_id pd = p) (programs (glob d))) \<le> 1"
  shows "(\<forall>p. length (filter (\<lambda>pd. pd_id pd = p) (programs (glob d'))) \<le> 1)
     \<and> (\<exists>ext. map pd_id (programs (glob d')) = map pd_id (programs (glob d)) @ ext)
     \<and> (ident \<in> pd_id ` set qs \<longrightarrow>
           snd (getProgram qs ident) = qs \<and> fst (getProgram qs ident) < length qs
           \<and> pd_id (qs ! fst (getProgram qs ident)) = ident)
     \<and> (ident \<notin> pd_id ` set qs \<longrightarrow>
           getProgram qs ident =
             (length qs,
              qs @ [\<lparr>pd_id = ident, pd_freq = 0, pd_name = [0, 0, 0, 0, 0, 0, 0, 0, 0],
                     pd_tp = 0, pd_ta = 0, pd_type = 0\<rparr>]))
     \<and> ((\<forall>p. length (filter (\<lambda>pd. pd_id pd = p) qs) \<le> 1) \<longrightarrow>
           (\<forall>p. length (filter (\<lambda>pd. pd_id pd = p) (snd (getProgram qs ident))) \<le> 1))"
proof -
  have g: "table_grows (programs (glob d)) (programs (glob d'))"
    using assms(1) by (rule run_grows)
  have "distinct (map pd_id (programs (glob d)))"
    using assms(2) by (simp only: unique_iff_distinct)
  with g have "distinct (map pd_id (programs (glob d')))"
    by (simp add: table_grows_def)
  then have one: "\<forall>p. length (filter (\<lambda>pd. pd_id pd = p) (programs (glob d'))) \<le> 1"
    by (simp only: unique_iff_distinct)
  have two: "\<exists>ext. map pd_id (programs (glob d')) = map pd_id (programs (glob d)) @ ext"
    using g by (simp add: table_grows_def)
  have five: "(\<forall>p. length (filter (\<lambda>pd. pd_id pd = p) qs) \<le> 1) \<longrightarrow>
           (\<forall>p. length (filter (\<lambda>pd. pd_id pd = p) (snd (getProgram qs ident))) \<le> 1)"
    using getProgram_grows [of qs ident]
    by (simp only: unique_iff_distinct table_grows_def) blast
  have rec: "zero_program\<lparr>pd_id := ident\<rparr>
      = \<lparr>pd_id = ident, pd_freq = 0, pd_name = [0, 0, 0, 0, 0, 0, 0, 0, 0],
         pd_tp = 0, pd_ta = 0, pd_type = 0\<rparr>"
    by (simp add: zero_program_def numeral_eq_Suc)
  have four: "ident \<notin> pd_id ` set qs \<longrightarrow>
           getProgram qs ident =
             (length qs,
              qs @ [\<lparr>pd_id = ident, pd_freq = 0, pd_name = [0, 0, 0, 0, 0, 0, 0, 0, 0],
                     pd_tp = 0, pd_ta = 0, pd_type = 0\<rparr>])"
    using getProgram_absent [of ident qs] by (simp only: rec) blast
  show ?thesis
    using one two four five getProgram_present [of ident qs]
    by blast
qed

theorem program_table_unique_witness:
  "(\<forall>p. length (filter (\<lambda>pd. pd_id pd = p)
           (programs (glob (fst (the (run decoder_start three_stations)))))) \<le> 1)
   \<and> map pd_id (programs (glob (fst (the (run decoder_start three_stations)))))
       = [0x1111, 0x2222, 0x3333]
   \<and> getProgram (programs two_programs) 0x2222 = (1, programs two_programs)
   \<and> getProgram (programs two_programs) 0x3333
       = (2, programs two_programs
             @ [\<lparr>pd_id = 0x3333, pd_freq = 0, pd_name = [0, 0, 0, 0, 0, 0, 0, 0, 0],
                 pd_tp = 0, pd_ta = 0, pd_type = 0\<rparr>])"
proof -
  obtain d' e where r: "run decoder_start three_stations = Some (d', e)"
    using run_three_stations(1) by auto
  have s: "\<forall>p. length (filter (\<lambda>pd. pd_id pd = p) (programs (glob decoder_start))) \<le> 1"
    by (simp add: decoder_start_def decoder_init_def fm_band_def)
  have a: "getProgram (programs two_programs) 0x2222 = (1, programs two_programs)"
    by code_simp
  have b: "0x3333 \<notin> pd_id ` set (programs two_programs)"
    by (simp add: two_programs_def zero_program_def)
  show ?thesis
    using program_table_unique [OF r s, of "0x3333" "programs two_programs"]
      run_three_stations(2) r a b
    by (simp add: two_programs_def)
qed

end
